theory Spec2Isabelle
  imports Complex_Main "HOL-Library.Sublist"
begin

section \<open>Python values, exceptions and the library\<close>

text \<open>
  The program (\<^verbatim>\<open>qbt_add.py\<close>) handles values that come out of a YAML rules file and
  out of JSON responses of the remote client. Their Python types are not checked by the
  program, so they are modelled dynamically: one datatype of values, and every operation
  that Python may refuse returns an exception as a value.

  A float is kept only as far as the program looks at it: it is tested for truth and
  passed to \<^verbatim>\<open>int()\<close>. A finite float is a rational number here (every finite float
  is one); the two infinities and NaN are separate values. A dictionary is an association
  list with string keys, read by \<^const>\<open>map_of\<close>; the keys of a JSON object are strings,
  and the program looks up string keys only. Values that only YAML can produce (dates,
  byte strings, sets, keys that are not strings) are outside the datatype.
\<close>

datatype pyfloat = Fin rat | PosInf | NegInf | NaN

datatype pyval =
    PNone
  | PBool bool
  | PInt int
  | PFloat pyfloat
  | PStr string
  | PList "pyval list"
  | PDict "(string \<times> pyval) list"

type_synonym pydict = "(string \<times> pyval) list"

datatype py_error =
    TypeError
  | ValueError
  | OverflowError
  | AttributeError
  | KeyError
  | IndexError
  | RuntimeError string
  | ReError
  | JSONDecodeError
  | RequestException
  | OSError

text \<open>
  The functions of the Python library that the program calls and that are not modelled
  here are parameters of the model:
  \<^item> \<open>re_search p s\<close> is \<^verbatim>\<open>re.search(p, s)\<close> on two strings: the exception it
    raises, or whether a match object is returned. A pattern that does not compile raises
    \<^verbatim>\<open>re.error\<close> (\<open>ReError\<close> here); the call may raise other exceptions too, for
    instance \<^verbatim>\<open>OverflowError\<close> on a repetition count that is too large;
  \<^item> \<open>str_to_int s\<close> is \<^verbatim>\<open>int(s)\<close> on a string: \<open>None\<close> when it raises
    \<^verbatim>\<open>ValueError\<close>;
  \<^item> \<open>url_hostname u\<close> is \<^verbatim>\<open>urlparse(u).hostname\<close> on a string: an exception,
    no hostname (\<^verbatim>\<open>None\<close>), or the hostname;
  \<^item> \<open>py_eq x y\<close> is \<^verbatim>\<open>x == y\<close> on two values (used for membership in a list).
\<close>

record lib =
  re_search :: "string \<Rightarrow> string \<Rightarrow> py_error + bool"
  str_to_int :: "string \<Rightarrow> int option"
  url_hostname :: "string \<Rightarrow> py_error + string option"
  py_eq :: "pyval \<Rightarrow> pyval \<Rightarrow> bool"

text \<open>Truth value testing: \<^verbatim>\<open>bool(v)\<close>, as \<^verbatim>\<open>if v:\<close> applies it.\<close>

fun truthy :: "pyval \<Rightarrow> bool" where
  "truthy PNone = False"
| "truthy (PBool b) = b"
| "truthy (PInt n) = (n \<noteq> 0)"
| "truthy (PFloat f) = (f \<noteq> Fin 0)"
| "truthy (PStr s) = (s \<noteq> [])"
| "truthy (PList xs) = (xs \<noteq> [])"
| "truthy (PDict kvs) = (kvs \<noteq> [])"

text \<open>\<^verbatim>\<open>d.get(k, default)\<close>: only a dictionary has the method.\<close>

fun py_get :: "pyval \<Rightarrow> string \<Rightarrow> pyval \<Rightarrow> py_error + pyval" where
  "py_get (PDict kvs) k d = Inr (case map_of kvs k of Some v \<Rightarrow> v | None \<Rightarrow> d)"
| "py_get _ k d = Inl AttributeError"

text \<open>
  \<^verbatim>\<open>for x in v\<close>: the elements a loop visits. A list gives its elements, a string
  its characters, a dictionary its keys; nothing else can be iterated.
\<close>

fun py_iter :: "pyval \<Rightarrow> py_error + pyval list" where
  "py_iter (PList xs) = Inr xs"
| "py_iter (PStr s) = Inr (map (\<lambda>c. PStr [c]) s)"
| "py_iter (PDict kvs) = Inr (map (\<lambda>kv. PStr (fst kv)) kvs)"
| "py_iter _ = Inl TypeError"

text \<open>
  \<^verbatim>\<open>int(v)\<close>. A float is truncated towards zero; an infinity raises
  \<^verbatim>\<open>OverflowError\<close> and NaN raises \<^verbatim>\<open>ValueError\<close>; a Boolean is 0 or 1.
\<close>

definition trunc_rat :: "rat \<Rightarrow> int" where
  "trunc_rat q = (if 0 \<le> q then \<lfloor>q\<rfloor> else \<lceil>q\<rceil>)"

fun py_int :: "lib \<Rightarrow> pyval \<Rightarrow> py_error + int" where
  "py_int L PNone = Inl TypeError"
| "py_int L (PBool b) = Inr (if b then 1 else 0)"
| "py_int L (PInt n) = Inr n"
| "py_int L (PFloat (Fin q)) = Inr (trunc_rat q)"
| "py_int L (PFloat PosInf) = Inl OverflowError"
| "py_int L (PFloat NegInf) = Inl OverflowError"
| "py_int L (PFloat NaN) = Inl ValueError"
| "py_int L (PStr s) = (case str_to_int L s of None \<Rightarrow> Inl ValueError | Some n \<Rightarrow> Inr n)"
| "py_int L (PList xs) = Inl TypeError"
| "py_int L (PDict kvs) = Inl TypeError"

text \<open>
  \<^verbatim>\<open>re.search(pattern, host)\<close> where \<open>host\<close> is a string and the pattern is any
  value: a pattern that is not a string raises \<^verbatim>\<open>TypeError\<close>.
\<close>

fun py_re_search :: "lib \<Rightarrow> pyval \<Rightarrow> string \<Rightarrow> py_error + bool" where
  "py_re_search L (PStr p) host = re_search L p host"
| "py_re_search L _ host = Inl TypeError"

section \<open>The rule matcher\<close>

text \<open>
  \<^verbatim>\<open>match_rules\<close>, lines 148 to 188. The body of the inner loop up to
  \<^verbatim>\<open>if is_hit:\<close> is \<open>is_hit\<close>; the branch under \<^verbatim>\<open>if is_hit:\<close> is
  \<open>apply_rule\<close>. Both read the rule with \<^verbatim>\<open>rule.get\<close> first, which raises
  \<^verbatim>\<open>AttributeError\<close> on a rule that is not a dictionary, so they take the
  dictionary and \<open>scan_rules\<close> makes the test.
\<close>

definition is_hit :: "lib \<Rightarrow> string \<Rightarrow> pydict \<Rightarrow> py_error + bool" where
  "is_hit L host rule =
     (let match = (case map_of rule ''match'' of Some v \<Rightarrow> v | None \<Rightarrow> PNone);
          match_regex = (case map_of rule ''match_regex'' of Some v \<Rightarrow> v | None \<Rightarrow> PNone)
      in if truthy match \<and> PStr host = match then Inr True
         else if truthy match_regex then
           (case py_re_search L match_regex host of
              Inr m \<Rightarrow> Inr m
            | Inl ReError \<Rightarrow> Inr False
            | Inl e \<Rightarrow> Inl e)
         else Inr False)"

type_synonym decision = "pyval option \<times> int option"

definition apply_rule :: "lib \<Rightarrow> pydict \<Rightarrow> py_error + decision" where
  "apply_rule L rule =
     (let category =
            (case map_of rule ''category'' of
               Some v \<Rightarrow> if truthy v then Some v else None
             | None \<Rightarrow> None)
      in case map_of rule ''up_limit_kib'' of
           None \<Rightarrow> Inr (category, None)
         | Some v \<Rightarrow>
             (case py_int L v of
                Inr n \<Rightarrow> Inr (category, Some n)
              | Inl TypeError \<Rightarrow> Inr (category, None)
              | Inl ValueError \<Rightarrow> Inr (category, None)
              | Inl e \<Rightarrow> Inl e))"

text \<open>
  The inner loop \<^verbatim>\<open>for rule in rules\<close> for one host: \<open>Inr None\<close> when the loop
  ends without a hit, \<open>Inr (Some d)\<close> when \<^verbatim>\<open>return category, up_limit_kib\<close> is
  reached, \<open>Inl e\<close> when an exception leaves the loop.
\<close>

fun scan_rules :: "lib \<Rightarrow> string \<Rightarrow> pyval list \<Rightarrow> py_error + decision option" where
  "scan_rules L host [] = Inr None"
| "scan_rules L host (PDict rule # rules) =
     (case is_hit L host rule of
        Inl e \<Rightarrow> Inl e
      | Inr True \<Rightarrow> (case apply_rule L rule of Inl e \<Rightarrow> Inl e | Inr d \<Rightarrow> Inr (Some d))
      | Inr False \<Rightarrow> scan_rules L host rules)"
| "scan_rules L host (_ # rules) = Inl AttributeError"

text \<open>The outer loop \<^verbatim>\<open>for host in hosts\<close>; the inner loop iterates \<open>rules\<close> anew
  for each host.\<close>

fun scan_hosts :: "lib \<Rightarrow> string list \<Rightarrow> pyval \<Rightarrow> py_error + decision option" where
  "scan_hosts L [] rules = Inr None"
| "scan_hosts L (host # hosts) rules =
     (case py_iter rules of
        Inl e \<Rightarrow> Inl e
      | Inr rs \<Rightarrow>
          (case scan_rules L host rs of
             Inl e \<Rightarrow> Inl e
           | Inr (Some d) \<Rightarrow> Inr (Some d)
           | Inr None \<Rightarrow> scan_hosts L hosts rules))"

text \<open>
  Lines 179 to 188: the fallback to the defaults, with the values \<open>category\<close> and
  \<open>up_limit_kib\<close> have when the loops are left (both are still \<^verbatim>\<open>None\<close> there,
  the guards are kept as the source has them).
\<close>

definition apply_defaults ::
  "lib \<Rightarrow> pyval option \<Rightarrow> int option \<Rightarrow> pyval \<Rightarrow> py_error + decision" where
  "apply_defaults L category up_limit_kib defaults =
     (case defaults of
        PDict dflt \<Rightarrow>
          (let category' =
                 (if category = None \<and>
                     truthy (case map_of dflt ''category'' of Some v \<Rightarrow> v | None \<Rightarrow> PNone)
                  then map_of dflt ''category'' else category)
           in if up_limit_kib = None \<and> map_of dflt ''up_limit_kib'' \<noteq> None then
                (case py_int L (case map_of dflt ''up_limit_kib'' of Some v \<Rightarrow> v | None \<Rightarrow> PInt 0) of
                   Inr n \<Rightarrow> Inr (category', Some n)
                 | Inl TypeError \<Rightarrow> Inr (category', None)
                 | Inl ValueError \<Rightarrow> Inr (category', None)
                 | Inl e \<Rightarrow> Inl e)
              else Inr (category', up_limit_kib))
      | _ \<Rightarrow> Inl AttributeError)"

definition match_rules :: "lib \<Rightarrow> string list \<Rightarrow> pyval \<Rightarrow> py_error + decision" where
  "match_rules L hosts rules_cfg =
     (case py_get rules_cfg ''rules'' (PList []) of
        Inl e \<Rightarrow> Inl e
      | Inr rules \<Rightarrow>
          (case scan_hosts L hosts rules of
             Inl e \<Rightarrow> Inl e
           | Inr (Some d) \<Rightarrow> Inr d
           | Inr None \<Rightarrow>
               (case py_get rules_cfg ''defaults'' (PDict []) of
                  Inl e \<Rightarrow> Inl e
                | Inr defaults \<Rightarrow> apply_defaults L None None defaults)))"

subsection \<open>Notions the statements about the matcher use\<close>

text \<open>
  A rule does not match a host when it is a dictionary and the test of the inner loop
  ends with \<^verbatim>\<open>is_hit\<close> false, without an exception.
\<close>

definition no_match :: "lib \<Rightarrow> string \<Rightarrow> pyval \<Rightarrow> bool" where
  "no_match L host rule =
     (case rule of PDict d \<Rightarrow> is_hit L host d = Inr False | _ \<Rightarrow> False)"

text \<open>The category of a rule or of the defaults, if it is there and not empty.\<close>

definition rule_category :: "pydict \<Rightarrow> pyval option" where
  "rule_category rule =
     (case map_of rule ''category'' of
        Some v \<Rightarrow> if truthy v then Some v else None
      | None \<Rightarrow> None)"

text \<open>
  The limits a rule set configures: for every rule and for the defaults, the integer
  its \<^verbatim>\<open>up_limit_kib\<close> entry is coerced to, where there is such an entry and
  \<^verbatim>\<open>int()\<close> accepts it.
\<close>

fun limit_of :: "lib \<Rightarrow> pyval \<Rightarrow> int list" where
  "limit_of L (PDict d) =
     (case map_of d ''up_limit_kib'' of
        Some v \<Rightarrow> (case py_int L v of Inr n \<Rightarrow> [n] | Inl e \<Rightarrow> [])
      | None \<Rightarrow> [])"
| "limit_of L _ = []"

definition configured_limits :: "lib \<Rightarrow> pyval \<Rightarrow> int list" where
  "configured_limits L rules_cfg =
     concat (map (limit_of L)
       ((case py_get rules_cfg ''rules'' (PList []) of
           Inr rules \<Rightarrow> (case py_iter rules of Inr rs \<Rightarrow> rs | Inl e \<Rightarrow> [])
         | Inl e \<Rightarrow> []) @
        (case py_get rules_cfg ''defaults'' (PDict []) of
           Inr defaults \<Rightarrow> [defaults]
         | Inl e \<Rightarrow> [])))"

subsection \<open>A library instance for the closed examples\<close>

text \<open>
  The closed examples below need the library at a few inputs. On the patterns, numerals
  and URLs it lists, \<open>lib0\<close> answers as CPython does: the pattern \<^verbatim>\<open>[\<close> does not
  compile (unterminated character set, \<^verbatim>\<open>re.error\<close>), the pattern
  \<^verbatim>\<open>a{4294967296}\<close> raises \<^verbatim>\<open>OverflowError\<close> (the repetition number is too
  large), \<^verbatim>\<open>^a[.]\<close> matches the strings that start with \<^verbatim>\<open>a.\<close>, \<^verbatim>\<open>int("100")\<close> is 100, and \<^verbatim>\<open>urlparse\<close> raises
  \<^verbatim>\<open>ValueError\<close> on an unclosed IPv6 bracket. Everywhere else it gives a fixed
  answer (no match, \<^verbatim>\<open>ValueError\<close>, no hostname, equality of the two values) that no
  example relies on.
\<close>

definition lib0 :: lib where
  "lib0 = \<lparr>
     re_search = (\<lambda>p s. if p = ''['' then Inl ReError
                         else if p = ''a{4294967296}'' then Inl OverflowError
                         else if p = ''^a[.]'' then Inr (prefix ''a.'' s)
                         else Inr False),
     str_to_int = (\<lambda>s. if s = ''100'' then Some 100 else None),
     url_hostname =
       (\<lambda>u. if u = ''http://t.example/announce'' then Inr (Some ''t.example'')
            else if u = ''udp://t.example:6969/announce'' then Inr (Some ''t.example'')
            else if u = ''https://b.example/a'' then Inr (Some ''b.example'')
            else if u = ''http://c.example:80/x'' then Inr (Some ''c.example'')
            else if u = ''http://[::1'' then Inl ValueError
            else Inr None),
     py_eq = (\<lambda>x y. x = y) \<rparr>"


section \<open>The tracker hostname extractor\<close>

text \<open>
  \<^verbatim>\<open>urlparse(url).hostname\<close> on any value. On a value that is not a string (and is
  true, as it is where the program calls it) \<^verbatim>\<open>urlparse\<close> looks for a
  \<^verbatim>\<open>decode\<close> method and raises \<^verbatim>\<open>AttributeError\<close>.
\<close>

fun py_url_hostname :: "lib \<Rightarrow> pyval \<Rightarrow> py_error + string option" where
  "py_url_hostname L (PStr u) = url_hostname L u"
| "py_url_hostname L _ = Inl AttributeError"

text \<open>
  \<^verbatim>\<open>extract_hostnames_from_trackers\<close>, lines 111 to 130. \<open>tracker_host\<close> is the
  body of the first loop after \<^verbatim>\<open>tr.get\<close> has found a dictionary: the hostname it
  appends, or \<open>None\<close> when it appends nothing (\<^verbatim>\<open>continue\<close>, no hostname, or an
  exception, all of which \<^verbatim>\<open>except Exception\<close> catches).
\<close>

definition tracker_host :: "lib \<Rightarrow> pydict \<Rightarrow> string option" where
  "tracker_host L tr =
     (let url = (case map_of tr ''url'' of Some v \<Rightarrow> v | None \<Rightarrow> PStr [])
      in if \<not> truthy url then None
         else (case py_url_hostname L url of
                 Inr (Some hostname) \<Rightarrow> if hostname \<noteq> [] then Some hostname else None
               | Inr None \<Rightarrow> None
               | Inl e \<Rightarrow> None))"

fun collect_hosts :: "lib \<Rightarrow> pyval list \<Rightarrow> string list \<Rightarrow> py_error + string list" where
  "collect_hosts L [] hosts = Inr hosts"
| "collect_hosts L (PDict tr # trackers) hosts =
     (case tracker_host L tr of
        Some hostname \<Rightarrow> collect_hosts L trackers (hosts @ [hostname])
      | None \<Rightarrow> collect_hosts L trackers hosts)"
| "collect_hosts L (_ # trackers) hosts = Inl AttributeError"

text \<open>The second loop, with the set \<open>seen\<close> and the list \<open>unique_hosts\<close> it updates.\<close>

fun unique_loop :: "string list \<Rightarrow> string set \<Rightarrow> string list \<Rightarrow> string list" where
  "unique_loop [] seen unique_hosts = unique_hosts"
| "unique_loop (h # hosts) seen unique_hosts =
     (if h \<notin> seen then unique_loop hosts (insert h seen) (unique_hosts @ [h])
      else unique_loop hosts seen unique_hosts)"

definition extract_hostnames_from_trackers :: "lib \<Rightarrow> pyval \<Rightarrow> py_error + string list" where
  "extract_hostnames_from_trackers L trackers =
     (case py_iter trackers of
        Inl e \<Rightarrow> Inl e
      | Inr trs \<Rightarrow>
          (case collect_hosts L trs [] of
             Inl e \<Rightarrow> Inl e
           | Inr hosts \<Rightarrow> Inr (unique_loop hosts {} [])))"

text \<open>
  A tracker record the extractor skips: its \<^verbatim>\<open>url\<close> is absent or empty, or parsing
  it raises, or parsing it yields no hostname.
\<close>

definition url_of :: "pydict \<Rightarrow> pyval" where
  "url_of tr = (case map_of tr ''url'' of Some v \<Rightarrow> v | None \<Rightarrow> PStr [])"

definition skipped :: "lib \<Rightarrow> pydict \<Rightarrow> bool" where
  "skipped L tr \<longleftrightarrow>
     \<not> truthy (url_of tr) \<or> isl (py_url_hostname L (url_of tr)) \<or>
     py_url_hostname L (url_of tr) = Inr None"

text \<open>
  The hostname of a tracker record in the words of the specification: the \<^verbatim>\<open>url\<close>
  field, if it is a string that is not empty, is parsed as a URI, and the hostname is
  what the parser yields, if it raises nothing and yields one.
\<close>

definition spec_hostname :: "lib \<Rightarrow> pydict \<Rightarrow> string option" where
  "spec_hostname L tr =
     (case map_of tr ''url'' of
        Some (PStr u) \<Rightarrow>
          (if u = [] then None
           else (case url_hostname L u of
                   Inr (Some h) \<Rightarrow> if h = [] then None else Some h
                 | _ \<Rightarrow> None))
      | _ \<Rightarrow> None)"

section \<open>The remote client and the process\<close>

text \<open>
  The rest of the program talks to the world: it sends HTTP requests through a
  \<^verbatim>\<open>requests.Session\<close>, reads the clock, sleeps, reads files, prints and exits.
  A step of the program takes the state of the world and returns it updated, with an
  outcome: a value, an exception that is raised, or \<^verbatim>\<open>sys.exit(n)\<close>.
\<close>

datatype 'a outcome = Return 'a | Raise py_error | Exit int

text \<open>
  The exit status of the process: 0 when \<^verbatim>\<open>main\<close> returns, the argument of
  \<^verbatim>\<open>sys.exit\<close>, and 1 when an exception reaches the top level.
\<close>

fun exit_code :: "'a outcome \<Rightarrow> int" where
  "exit_code (Return x) = 0"
| "exit_code (Raise e) = 1"
| "exit_code (Exit n) = n"

datatype http_method = GET | POST

text \<open>
  A request as the program hands it to the session: the method, the URL, the form fields
  (\<^verbatim>\<open>data=\<close>), the query parameters (\<^verbatim>\<open>params=\<close>), the uploaded files
  (\<^verbatim>\<open>files=\<close>: field name, file name, path of the opened file, content type), and
  the session's \<^verbatim>\<open>verify\<close> flag. Of a response the program reads the status code,
  the text, and the decoded JSON body (\<^verbatim>\<open>resp.json()\<close>, which may raise).
\<close>

record request =
  req_method :: http_method
  req_url :: string
  req_data :: pydict
  req_params :: pydict
  req_files :: "(string \<times> string \<times> string \<times> string) list"
  req_verify :: bool

record response =
  status_code :: int
  resp_text :: string
  resp_json :: "py_error + pyval"

record session =
  verify :: bool

text \<open>
  What the program prints: a line on the standard error stream, or the summary line on
  the standard output (the category and the limit that were applied, and the hosts).
\<close>

datatype out_line = Stderr string | Summary "pyval option" "int option" "string list"

text \<open>
  The state of the world: the requests sent so far, the lines printed so far, how often
  the clock was read and how often the program slept.
\<close>

record world =
  calls :: "request list"
  printed :: "out_line list"
  clock_reads :: nat
  sleeps :: nat

text \<open>
  What the program cannot determine is a parameter: the answer of the remote client to a
  request (given the requests before it; the answer may be an exception of the HTTP
  library), the clock (the value of the \<open>n\<close>-th reading of \<^verbatim>\<open>time.time()\<close>, a real
  number here), the file system (\<^verbatim>\<open>os.path.isfile\<close>, whether \<^verbatim>\<open>open\<close>
  succeeds, and what \<^verbatim>\<open>yaml.safe_load\<close> makes of a file), and the UUID drawn for
  the marker tag.
\<close>

datatype yaml_result = Loaded pyval | YAMLError string

record env =
  remote :: "request list \<Rightarrow> request \<Rightarrow> py_error + response"
  clock :: "nat \<Rightarrow> real"
  isfile :: "string \<Rightarrow> bool"
  can_open :: "string \<Rightarrow> bool"
  safe_load :: "string \<Rightarrow> yaml_result"
  uuid4 :: string

text \<open>The command line after \<^verbatim>\<open>parse_args\<close> (lines 16 to 60).\<close>

record args =
  arg_source :: string
  arg_host :: string
  arg_username :: "string option"
  arg_password :: "string option"
  arg_config :: string
  arg_insecure :: bool
  arg_no_unpause :: bool
  arg_timeout :: int

subsection \<open>Sequencing\<close>

type_synonym 'a step = "world \<Rightarrow> 'a outcome \<times> world"

definition return :: "'a \<Rightarrow> 'a step" where
  "return x w = (Return x, w)"

definition raise :: "py_error \<Rightarrow> 'a step" where
  "raise e w = (Raise e, w)"

definition sys_exit :: "int \<Rightarrow> 'a step" where
  "sys_exit n w = (Exit n, w)"

text \<open>\<open>seq m f\<close> runs \<open>m\<close> and then \<open>f\<close> on its value; an exception or an exit of
  \<open>m\<close> ends the sequence.\<close>

definition seq :: "'a step \<Rightarrow> ('a \<Rightarrow> 'b step) \<Rightarrow> 'b step" where
  "seq m f w =
     (case m w of
        (Return x, w') \<Rightarrow> f x w'
      | (Raise e, w') \<Rightarrow> (Raise e, w')
      | (Exit n, w') \<Rightarrow> (Exit n, w'))"

definition lift :: "py_error + 'a \<Rightarrow> 'a step" where
  "lift r w = (case r of Inl e \<Rightarrow> (Raise e, w) | Inr x \<Rightarrow> (Return x, w))"

definition print_err :: "string \<Rightarrow> unit step" where
  "print_err s w = (Return (), w\<lparr>printed := printed w @ [Stderr s]\<rparr>)"

definition print_out :: "out_line \<Rightarrow> unit step" where
  "print_out l w = (Return (), w\<lparr>printed := printed w @ [l]\<rparr>)"

definition time_time :: "env \<Rightarrow> real step" where
  "time_time E w = (Return (clock E (clock_reads w)), w\<lparr>clock_reads := Suc (clock_reads w)\<rparr>)"

definition time_sleep :: "unit step" where
  "time_sleep w = (Return (), w\<lparr>sleeps := Suc (sleeps w)\<rparr>)"

text \<open>A request is recorded whether the remote client answers it or the library raises.\<close>

definition http :: "env \<Rightarrow> request \<Rightarrow> response step" where
  "http E rq w =
     (case remote E (calls w) rq of
        Inl e \<Rightarrow> (Raise e, w\<lparr>calls := calls w @ [rq]\<rparr>)
      | Inr resp \<Rightarrow> (Return resp, w\<lparr>calls := calls w @ [rq]\<rparr>))"

definition session_post ::
  "env \<Rightarrow> session \<Rightarrow> string \<Rightarrow> pydict \<Rightarrow> (string \<times> string \<times> string \<times> string) list
     \<Rightarrow> response step" where
  "session_post E s u dat fls =
     http E \<lparr>req_method = POST, req_url = u, req_data = dat, req_params = [],
             req_files = fls, req_verify = verify s\<rparr>"

definition session_get :: "env \<Rightarrow> session \<Rightarrow> string \<Rightarrow> pydict \<Rightarrow> response step" where
  "session_get E s u prms =
     http E \<lparr>req_method = GET, req_url = u, req_data = [], req_params = prms,
             req_files = [], req_verify = verify s\<rparr>"

subsection \<open>Strings\<close>

text \<open>\<^verbatim>\<open>str(n)\<close> of an integer: its decimal numeral.\<close>

function str_nat :: "nat \<Rightarrow> string" where
  "str_nat n =
     (if n < 10 then [''0123456789'' ! n]
      else str_nat (n div 10) @ [''0123456789'' ! (n mod 10)])"
  by pat_completeness auto
termination
  by (relation "measure id") auto

declare str_nat.simps [simp del]

definition py_str_int :: "int \<Rightarrow> string" where
  "py_str_int i = (if i < 0 then CHR ''-'' # str_nat (nat (- i)) else str_nat (nat i))"

text \<open>The number a string of decimal digits denotes.\<close>

definition digit_value :: "char \<Rightarrow> nat" where
  "digit_value c = of_char c - 48"

definition decimal_value :: "string \<Rightarrow> nat" where
  "decimal_value s = foldl (\<lambda>a c. 10 * a + digit_value c) 0 s"

text \<open>\<^verbatim>\<open>os.path.basename\<close>: what follows the last slash.\<close>

definition basename :: "string \<Rightarrow> string" where
  "basename p = rev (takeWhile (\<lambda>c. c \<noteq> CHR ''/'') (rev p))"

text \<open>An optional string of the command line as a Python value.\<close>

fun py_opt_str :: "string option \<Rightarrow> pyval" where
  "py_opt_str None = PNone"
| "py_opt_str (Some s) = PStr s"

subsection \<open>The calls, lines 63 to 108 and 191 to 236\<close>

definition qb_login :: "env \<Rightarrow> session \<Rightarrow> string \<Rightarrow> string option \<Rightarrow> string option \<Rightarrow> unit step" where
  "qb_login E s base_url username password =
     (if \<not> truthy (py_opt_str username) \<or> \<not> truthy (py_opt_str password) then
        seq (print_err ''Error: Missing username/password. Provide --username/--password or env QBT_USERNAME/QBT_PASSWORD.'')
          (\<lambda>_. sys_exit 2)
      else
        seq (session_post E s (base_url @ ''/api/v2/auth/login'')
               [(''username'', py_opt_str username), (''password'', py_opt_str password)] [])
          (\<lambda>resp.
             if status_code resp \<noteq> 200 \<or> resp_text resp \<noteq> ''Ok.'' then
               seq (print_err (''Error: Login failed (status '' @ py_str_int (status_code resp)
                      @ ''): '' @ resp_text resp))
                 (\<lambda>_. sys_exit 1)
             else return ()))"

definition qb_add_source :: "env \<Rightarrow> session \<Rightarrow> string \<Rightarrow> string \<Rightarrow> string \<Rightarrow> bool \<Rightarrow> unit step" where
  "qb_add_source E s base_url source tag paused =
     seq (if prefix ''magnet:?'' source then
            session_post E s (base_url @ ''/api/v2/torrents/add'')
              [(''paused'', PStr (if paused then ''true'' else ''false'')),
               (''tags'', PStr tag),
               (''urls'', PStr source)] []
          else if \<not> isfile E source then
            seq (print_err (''Error: File not found: '' @ source)) (\<lambda>_. sys_exit 2)
          else if \<not> can_open E source then raise OSError
          else
            session_post E s (base_url @ ''/api/v2/torrents/add'')
              [(''paused'', PStr (if paused then ''true'' else ''false'')),
               (''tags'', PStr tag)]
              [(''torrents'', basename source, source, ''application/x-bittorrent'')])
       (\<lambda>resp.
          if status_code resp \<noteq> 200 then
            seq (print_err (''Error: Failed to add torrent (status '' @ py_str_int (status_code resp)
                   @ ''): '' @ resp_text resp))
              (\<lambda>_. sys_exit 1)
          else return ())"

definition qb_find_torrents_by_tag :: "env \<Rightarrow> session \<Rightarrow> string \<Rightarrow> string \<Rightarrow> pyval step" where
  "qb_find_torrents_by_tag E s base_url tag =
     seq (session_get E s (base_url @ ''/api/v2/torrents/info'') [(''tag'', PStr tag)])
       (\<lambda>resp.
          if status_code resp \<noteq> 200 then
            raise (RuntimeError (''Failed to query torrents by tag: ''
                     @ py_str_int (status_code resp) @ '' '' @ resp_text resp))
          else lift (resp_json resp))"

definition qb_get_trackers :: "env \<Rightarrow> session \<Rightarrow> string \<Rightarrow> pyval \<Rightarrow> pyval step" where
  "qb_get_trackers E s base_url torrent_hash =
     seq (session_get E s (base_url @ ''/api/v2/torrents/trackers'') [(''hash'', torrent_hash)])
       (\<lambda>resp.
          if status_code resp \<noteq> 200 then
            raise (RuntimeError (''Failed to fetch trackers: ''
                     @ py_str_int (status_code resp) @ '' '' @ resp_text resp))
          else lift (resp_json resp))"

definition qb_get_categories :: "env \<Rightarrow> session \<Rightarrow> string \<Rightarrow> pyval step" where
  "qb_get_categories E s base_url =
     seq (session_get E s (base_url @ ''/api/v2/torrents/categories'') [])
       (\<lambda>resp.
          if status_code resp \<noteq> 200 then
            raise (RuntimeError (''Failed to fetch categories: ''
                     @ py_str_int (status_code resp) @ '' '' @ resp_text resp))
          else lift (resp_json resp))"

text \<open>
  \<^verbatim>\<open>x in c\<close>. In a dictionary the key is looked up by hash, which a list or a
  dictionary does not have; its keys are strings, so no other value is found. In a list
  the elements are compared with \<^verbatim>\<open>==\<close> (\<open>py_eq\<close> of the library). In a string only a
  string can be sought. Nothing else is a container.
\<close>

definition py_in :: "lib \<Rightarrow> pyval \<Rightarrow> pyval \<Rightarrow> py_error + bool" where
  "py_in L x c =
     (case c of
        PDict kvs \<Rightarrow>
          (case x of
             PList _ \<Rightarrow> Inl TypeError
           | PDict _ \<Rightarrow> Inl TypeError
           | PStr k \<Rightarrow> Inr (k \<in> set (map fst kvs))
           | _ \<Rightarrow> Inr False)
      | PList ys \<Rightarrow> Inr (list_ex (py_eq L x) ys)
      | PStr y \<Rightarrow> (case x of PStr k \<Rightarrow> Inr (sublist k y) | _ \<Rightarrow> Inl TypeError)
      | _ \<Rightarrow> Inl TypeError)"

definition qb_create_category_if_missing :: "lib \<Rightarrow> env \<Rightarrow> session \<Rightarrow> string \<Rightarrow> pyval \<Rightarrow> unit step" where
  "qb_create_category_if_missing L E s base_url category =
     (if \<not> truthy category then return ()
      else
        seq (qb_get_categories E s base_url)
          (\<lambda>cats.
             seq (lift (py_in L category cats))
               (\<lambda>found.
                  if found then return ()
                  else
                    seq (session_post E s (base_url @ ''/api/v2/torrents/createCategory'')
                           [(''category'', category)] [])
                      (\<lambda>resp.
                         if status_code resp \<noteq> 200 then
                           print_err (''Warning: createCategory returned ''
                             @ py_str_int (status_code resp) @ '': '' @ resp_text resp)
                         else return ()))))"

definition qb_set_category :: "env \<Rightarrow> session \<Rightarrow> string \<Rightarrow> pyval \<Rightarrow> pyval \<Rightarrow> unit step" where
  "qb_set_category E s base_url torrent_hash category =
     (if \<not> truthy category then return ()
      else
        seq (session_post E s (base_url @ ''/api/v2/torrents/setCategory'')
               [(''hashes'', torrent_hash), (''category'', category)] [])
          (\<lambda>resp.
             if status_code resp \<noteq> 200 then
               print_err (''Warning: setCategory failed ('' @ py_str_int (status_code resp)
                 @ ''): '' @ resp_text resp)
             else return ()))"

text \<open>Line 222: \<^verbatim>\<open>limit_bytes = max(0, int(limit_kib_per_s) * 1024)\<close>.\<close>

definition limit_bytes :: "int \<Rightarrow> int" where
  "limit_bytes limit_kib_per_s = max 0 (limit_kib_per_s * 1024)"

definition qb_set_upload_limit :: "env \<Rightarrow> session \<Rightarrow> string \<Rightarrow> pyval \<Rightarrow> int option \<Rightarrow> unit step" where
  "qb_set_upload_limit E s base_url torrent_hash limit_kib_per_s =
     (case limit_kib_per_s of
        None \<Rightarrow> return ()
      | Some l \<Rightarrow>
          seq (session_post E s (base_url @ ''/api/v2/torrents/setUploadLimit'')
                 [(''hashes'', torrent_hash), (''limit'', PStr (py_str_int (limit_bytes l)))] [])
            (\<lambda>resp.
               if status_code resp \<noteq> 200 then
                 print_err (''Warning: setUploadLimit failed ('' @ py_str_int (status_code resp)
                   @ ''): '' @ resp_text resp)
               else return ()))"

definition qb_remove_tag :: "env \<Rightarrow> session \<Rightarrow> string \<Rightarrow> pyval \<Rightarrow> string \<Rightarrow> unit step" where
  "qb_remove_tag E s base_url torrent_hash tag =
     seq (session_post E s (base_url @ ''/api/v2/torrents/removeTags'')
            [(''hashes'', torrent_hash), (''tags'', PStr tag)] [])
       (\<lambda>resp. return ())"

definition qb_resume :: "env \<Rightarrow> session \<Rightarrow> string \<Rightarrow> pyval \<Rightarrow> unit step" where
  "qb_resume E s base_url torrent_hash =
     seq (session_post E s (base_url @ ''/api/v2/torrents/resume'') [(''hashes'', torrent_hash)] [])
       (\<lambda>resp.
          if status_code resp \<noteq> 200 then
            print_err (''Warning: resume failed ('' @ py_str_int (status_code resp)
              @ ''): '' @ resp_text resp)
          else return ())"

subsection \<open>Loading the rules, lines 133 to 145\<close>

text \<open>\<^verbatim>\<open>d.setdefault(k, v)\<close>, for its effect on \<open>d\<close>.\<close>

fun py_setdefault :: "pyval \<Rightarrow> string \<Rightarrow> pyval \<Rightarrow> py_error + pyval" where
  "py_setdefault (PDict kvs) k v =
     Inr (PDict (if k \<in> set (map fst kvs) then kvs else kvs @ [(k, v)]))"
| "py_setdefault _ k v = Inl AttributeError"

definition load_rules :: "env \<Rightarrow> string \<Rightarrow> pyval step" where
  "load_rules E path =
     (if \<not> isfile E path then
        seq (print_err (''Error: Rules file not found: '' @ path)) (\<lambda>_. sys_exit 2)
      else if \<not> can_open E path then raise OSError
      else
        (case safe_load E path of
           YAMLError e \<Rightarrow>
             seq (print_err (''Error: Failed to parse YAML rules: '' @ e)) (\<lambda>_. sys_exit 2)
         | Loaded v \<Rightarrow>
             seq (lift (py_setdefault (if truthy v then v else PDict []) ''defaults'' (PDict [])))
               (\<lambda>data1. lift (py_setdefault data1 ''rules'' (PList [])))))"

subsection \<open>The orchestrator, lines 239 to 293\<close>

text \<open>
  The loop of lines 256 to 260, with the value \<open>torrents\<close> has so far. The loop may run
  for ever (a clock that never reaches the deadline and a remote client that never lists
  the torrent), so its result is optional.
\<close>

partial_function (option) poll ::
  "env \<Rightarrow> session \<Rightarrow> string \<Rightarrow> string \<Rightarrow> real \<Rightarrow> pyval \<Rightarrow> world \<Rightarrow> (pyval outcome \<times> world) option" where
  "poll E s base_url unique_tag deadline torrents w =
     (case time_time E w of
        (Return now, w1) \<Rightarrow>
          if now < deadline then
            (case qb_find_torrents_by_tag E s base_url unique_tag w1 of
               (Return found, w2) \<Rightarrow>
                 if truthy found then Some (Return found, w2)
                 else poll E s base_url unique_tag deadline found (snd (time_sleep w2))
             | (Raise e, w2) \<Rightarrow> Some (Raise e, w2)
             | (Exit n, w2) \<Rightarrow> Some (Exit n, w2))
          else Some (Return torrents, w1)
      | (Raise e, w1) \<Rightarrow> Some (Raise e, w1)
      | (Exit n, w1) \<Rightarrow> Some (Exit n, w1))"

text \<open>\<^verbatim>\<open>torrents[0]\<close>.\<close>

fun py_first :: "pyval \<Rightarrow> py_error + pyval" where
  "py_first (PList (x # xs)) = Inr x"
| "py_first (PList []) = Inl IndexError"
| "py_first (PStr (c # cs)) = Inr (PStr [c])"
| "py_first (PStr []) = Inl IndexError"
| "py_first (PDict kvs) = Inl KeyError"
| "py_first _ = Inl TypeError"

text \<open>Lines 262 to 293: what \<^verbatim>\<open>main\<close> does once the loop is left.\<close>

definition after_poll ::
  "lib \<Rightarrow> env \<Rightarrow> session \<Rightarrow> args \<Rightarrow> pyval \<Rightarrow> string \<Rightarrow> pyval \<Rightarrow> unit step" where
  "after_poll L E s a rules_cfg unique_tag torrents =
     (if \<not> truthy torrents then
        seq (print_err ''Error: Added torrent not found by tag within timeout.'')
          (\<lambda>_. sys_exit 1)
      else
        seq (lift (py_first torrents)) (\<lambda>torrent.
        seq (lift (py_get torrent ''hash'' PNone)) (\<lambda>torrent_hash.
        seq (qb_get_trackers E s (arg_host a) torrent_hash) (\<lambda>trackers.
        seq (lift (extract_hostnames_from_trackers L trackers)) (\<lambda>hosts.
        seq (lift (match_rules L hosts rules_cfg)) (\<lambda>(category, up_limit_kib).
        seq (case category of
               Some c \<Rightarrow>
                 if truthy c then
                   seq (qb_create_category_if_missing L E s (arg_host a) c)
                     (\<lambda>_. qb_set_category E s (arg_host a) torrent_hash c)
                 else return ()
             | None \<Rightarrow> return ()) (\<lambda>_.
        seq (qb_set_upload_limit E s (arg_host a) torrent_hash up_limit_kib) (\<lambda>_.
        seq (qb_remove_tag E s (arg_host a) torrent_hash unique_tag) (\<lambda>_.
        seq (if \<not> arg_no_unpause a then qb_resume E s (arg_host a) torrent_hash
             else return ()) (\<lambda>_.
        print_out (Summary (case category of
                              Some c \<Rightarrow> if truthy c then Some c else None
                            | None \<Rightarrow> None)
                     up_limit_kib hosts)))))))))))"

text \<open>Lines 239 to 255: \<^verbatim>\<open>main\<close> up to the loop; it hands the rules, the marker tag
  and the deadline to the loop.\<close>

definition before_poll :: "env \<Rightarrow> session \<Rightarrow> args \<Rightarrow> (pyval \<times> string \<times> real) step" where
  "before_poll E s a =
     seq (qb_login E s (arg_host a) (arg_username a) (arg_password a)) (\<lambda>_.
     seq (load_rules E (arg_config a)) (\<lambda>rules_cfg.
     seq (qb_add_source E s (arg_host a) (arg_source a) (''qbt-rules-'' @ uuid4 E) True) (\<lambda>_.
     seq (time_time E) (\<lambda>now.
     return (rules_cfg, ''qbt-rules-'' @ uuid4 E, now + real_of_int (arg_timeout a))))))"

definition main :: "lib \<Rightarrow> env \<Rightarrow> args \<Rightarrow> world \<Rightarrow> (unit outcome \<times> world) option" where
  "main L E a w =
     (let s = \<lparr>verify = \<not> arg_insecure a\<rparr> in
      case before_poll E s a w of
        (Return (rules_cfg, unique_tag, deadline), w1) \<Rightarrow>
          (case poll E s (arg_host a) unique_tag deadline (PList []) w1 of
             None \<Rightarrow> None
           | Some (Return torrents, w2) \<Rightarrow>
               Some (after_poll L E s a rules_cfg unique_tag torrents w2)
           | Some (Raise e, w2) \<Rightarrow> Some (Raise e, w2)
           | Some (Exit n, w2) \<Rightarrow> Some (Exit n, w2))
      | (Raise e, w1) \<Rightarrow> Some (Raise e, w1)
      | (Exit n, w1) \<Rightarrow> Some (Exit n, w1))"

text \<open>The request \<^verbatim>\<open>qb_find_torrents_by_tag\<close> sends.\<close>

definition tag_query :: "session \<Rightarrow> string \<Rightarrow> string \<Rightarrow> request" where
  "tag_query s base_url tag =
     \<lparr>req_method = GET, req_url = base_url @ ''/api/v2/torrents/info'', req_data = [],
      req_params = [(''tag'', PStr tag)], req_files = [], req_verify = verify s\<rparr>"

text \<open>The request \<^verbatim>\<open>qb_login\<close> sends.\<close>

definition login_request :: "session \<Rightarrow> string \<Rightarrow> string option \<Rightarrow> string option \<Rightarrow> request" where
  "login_request s base_url username password =
     \<lparr>req_method = POST, req_url = base_url @ ''/api/v2/auth/login'',
      req_data = [(''username'', py_opt_str username), (''password'', py_opt_str password)],
      req_params = [], req_files = [], req_verify = verify s\<rparr>"

subsection \<open>A world for the closed examples\<close>

text \<open>
  A remote client at \<^verbatim>\<open>http://qb\<close> that answers the login with the given status
  and text, accepts every other request with status 200, and lists no torrent; a clock
  that advances by ten seconds between two readings; a rules file \<^verbatim>\<open>rules.yaml\<close>
  that holds an empty mapping. The command line adds a magnet link with the default
  timeout of 20 seconds.
\<close>

definition env0 :: "int \<Rightarrow> string \<Rightarrow> env" where
  "env0 login_status login_text =
     \<lparr>remote = (\<lambda>log rq.
        if req_url rq = ''http://qb/api/v2/auth/login''
        then Inr \<lparr>status_code = login_status, resp_text = login_text,
                   resp_json = Inl JSONDecodeError\<rparr>
        else if req_url rq = ''http://qb/api/v2/torrents/info''
        then Inr \<lparr>status_code = 200, resp_text = ''[]'', resp_json = Inr (PList [])\<rparr>
        else Inr \<lparr>status_code = 200, resp_text = ''Ok.'', resp_json = Inl JSONDecodeError\<rparr>),
      clock = (\<lambda>n. 10 * real n),
      isfile = (\<lambda>p. p = ''rules.yaml''),
      can_open = (\<lambda>p. True),
      safe_load = (\<lambda>p. Loaded (PDict [])),
      uuid4 = ''1b4e28ba-2fa1-11d2-883f-0016d3cca427''\<rparr>"

definition args0 :: "string option \<Rightarrow> args" where
  "args0 username =
     \<lparr>arg_source = ''magnet:?xt=urn:btih:c12fe1c06bba254a9dc9f519b335aa7c1367a88a'',
      arg_host = ''http://qb'',
      arg_username = username,
      arg_password = Some ''adminadmin'',
      arg_config = ''rules.yaml'',
      arg_insecure = False,
      arg_no_unpause = False,
      arg_timeout = 20\<rparr>"

definition world0 :: world where
  "world0 = \<lparr>calls = [], printed = [], clock_reads = 0, sleeps = 0\<rparr>"

section \<open>Properties of the rule matcher\<close>

subsection \<open>The two loops\<close>

lemma scan_rules_no_match:
  "\<forall>r\<in>set rs. no_match L h r \<Longrightarrow> scan_rules L h rs = Inr None"
proof (induction rs)
  case Nil
  show ?case by simp
next
  case (Cons r rs)
  then obtain d where "r = PDict d" "is_hit L h d = Inr False"
    by (auto simp: no_match_def split: pyval.splits)
  with Cons show ?case by simp
qed

lemma scan_rules_first_hit:
  assumes "\<forall>r'\<in>set rs1. no_match L h r'" and "is_hit L h r = Inr True"
  shows "scan_rules L h (rs1 @ PDict r # rs2) =
           (case apply_rule L r of Inl e \<Rightarrow> Inl e | Inr d \<Rightarrow> Inr (Some d))"
  using assms
proof (induction rs1)
  case Nil
  then show ?case by simp
next
  case (Cons a rs1)
  then obtain d where "a = PDict d" "is_hit L h d = Inr False"
    by (auto simp: no_match_def split: pyval.splits)
  with Cons show ?case by simp
qed

lemma scan_hosts_no_match:
  assumes "py_iter rules = Inr rs"
  shows "\<forall>h\<in>set hs. \<forall>r\<in>set rs. no_match L h r \<Longrightarrow> scan_hosts L hs rules = Inr None"
  using assms by (induction hs) (simp_all add: scan_rules_no_match)

lemma scan_hosts_skip:
  assumes "py_iter rules = Inr rs" and "\<forall>h\<in>set hs1. \<forall>r\<in>set rs. no_match L h r"
  shows "scan_hosts L (hs1 @ hs) rules = scan_hosts L hs rules"
  using assms by (induction hs1) (simp_all add: scan_rules_no_match)

subsection \<open>First match\<close>

text \<open>
  The order of the search. The matcher runs over the hosts in the outer loop and over the
  rules in the inner loop and stops at the first hit in this order. Let \<open>h\<close> be the first host that
  any rule matches (the hosts \<open>hs1\<close> before it match no rule at all) and \<open>r\<close> the first
  rule that matches \<open>h\<close> (the rules \<open>rs1\<close> before it do not match \<open>h\<close>, though they may
  match a later host). Then the result of \<open>match_rules\<close> is the result of applying
  \<open>r\<close> alone: the later hosts \<open>hs2\<close> and the later rules \<open>rs2\<close> are arbitrary, they need
  not even be well formed. The result carries the category of \<open>r\<close> if it is not empty, and
  the limit of \<open>r\<close> if it is there and \<^verbatim>\<open>int()\<close> accepts it; a limit that \<^verbatim>\<open>int()\<close>
  refuses with \<^verbatim>\<open>TypeError\<close> or \<^verbatim>\<open>ValueError\<close> is left out. Any other exception of
  \<^verbatim>\<open>int()\<close> is the result of applying \<open>r\<close>, and so of \<open>match_rules\<close>.
\<close>

theorem match_rules_first_match:
  assumes cfg: "py_get rules_cfg ''rules'' (PList []) = Inr rules"
    and rules: "py_iter rules = Inr (rs1 @ PDict r # rs2)"
    and earlier_hosts: "\<forall>h'\<in>set hs1. \<forall>r'\<in>set (rs1 @ PDict r # rs2). no_match L h' r'"
    and earlier_rules: "\<forall>r'\<in>set rs1. no_match L h r'"
    and hit: "is_hit L h r = Inr True"
  shows "match_rules L (hs1 @ h # hs2) rules_cfg = apply_rule L r \<and>
         (map_of r ''up_limit_kib'' = None \<longrightarrow>
            apply_rule L r = Inr (rule_category r, None)) \<and>
         (\<forall>v n. map_of r ''up_limit_kib'' = Some v \<and> py_int L v = Inr n \<longrightarrow>
            apply_rule L r = Inr (rule_category r, Some n)) \<and>
         (\<forall>v. map_of r ''up_limit_kib'' = Some v \<and>
              py_int L v \<in> {Inl TypeError, Inl ValueError} \<longrightarrow>
            apply_rule L r = Inr (rule_category r, None))"
proof -
  have "scan_hosts L (hs1 @ h # hs2) rules = scan_hosts L (h # hs2) rules"
    using rules earlier_hosts by (rule scan_hosts_skip)
  also have "\<dots> = (case apply_rule L r of Inl e \<Rightarrow> Inl e | Inr d \<Rightarrow> Inr (Some d))"
    using rules scan_rules_first_hit [OF earlier_rules hit, of rs2]
    by (simp split: sum.splits)
  finally have "match_rules L (hs1 @ h # hs2) rules_cfg = apply_rule L r"
    using cfg by (simp add: match_rules_def split: sum.splits)
  moreover have "map_of r ''up_limit_kib'' = None \<longrightarrow>
            apply_rule L r = Inr (rule_category r, None)"
    by (simp add: apply_rule_def rule_category_def)
  moreover have "\<forall>v n. map_of r ''up_limit_kib'' = Some v \<and> py_int L v = Inr n \<longrightarrow>
            apply_rule L r = Inr (rule_category r, Some n)"
    by (simp add: apply_rule_def rule_category_def)
  moreover have "\<forall>v. map_of r ''up_limit_kib'' = Some v \<and>
              py_int L v \<in> {Inl TypeError, Inl ValueError} \<longrightarrow>
            apply_rule L r = Inr (rule_category r, None)"
    by (auto simp add: apply_rule_def rule_category_def)
  ultimately show ?thesis by blast
qed

text \<open>
  An instance: the hosts are \<^verbatim>\<open>x.example\<close>, \<^verbatim>\<open>a.example\<close>, \<^verbatim>\<open>b.example\<close>.
  The first rule matches only the third host, the second rule matches the second host by
  its pattern, the third rule would match the second host too. The second host is the
  first that any rule matches, so the second rule decides, although the first rule
  matches a host as well.
\<close>

theorem match_rules_first_match_witness:
  "match_rules lib0 ([''x.example''] @ ''a.example'' # [''b.example''])
     (PDict [(''rules'', PList (
        [PDict [(''match'', PStr ''b.example''), (''category'', PStr ''B'')]] @
        PDict [(''match_regex'', PStr ''^a[.]''), (''category'', PStr ''A''),
               (''up_limit_kib'', PInt 500)] #
        [PDict [(''match'', PStr ''a.example''), (''category'', PStr ''late'')]]))])
   = Inr (Some (PStr ''A''), Some 500)"
  using match_rules_first_match [where L = lib0
      and rules_cfg = "PDict [(''rules'', PList (
        [PDict [(''match'', PStr ''b.example''), (''category'', PStr ''B'')]] @
        PDict [(''match_regex'', PStr ''^a[.]''), (''category'', PStr ''A''),
               (''up_limit_kib'', PInt 500)] #
        [PDict [(''match'', PStr ''a.example''), (''category'', PStr ''late'')]]))]"
      and rules = "PList (
        [PDict [(''match'', PStr ''b.example''), (''category'', PStr ''B'')]] @
        PDict [(''match_regex'', PStr ''^a[.]''), (''category'', PStr ''A''),
               (''up_limit_kib'', PInt 500)] #
        [PDict [(''match'', PStr ''a.example''), (''category'', PStr ''late'')]])"
      and ?rs1.0 = "[PDict [(''match'', PStr ''b.example''), (''category'', PStr ''B'')]]"
      and r = "[(''match_regex'', PStr ''^a[.]''), (''category'', PStr ''A''),
               (''up_limit_kib'', PInt 500)]"
      and ?rs2.0 = "[PDict [(''match'', PStr ''a.example''), (''category'', PStr ''late'')]]"
      and ?hs1.0 = "[''x.example'']" and h = "''a.example''" and ?hs2.0 = "[''b.example'']"]
  by (simp add: no_match_def is_hit_def lib0_def rule_category_def)

text \<open>
  Claim C1. The first rule that matches, in the order hosts outside and rules inside,
  should determine the result that is returned: its category if not empty, its limit if
  \<^verbatim>\<open>int()\<close> can coerce it, for every host list and rule set. The order holds, as shown
  above. But the handler at lines 174 to 175 names \<^verbatim>\<open>TypeError\<close> and
  \<^verbatim>\<open>ValueError\<close> only: when the first matching rule has a float infinity as limit
  (\<^verbatim>\<open>up_limit_kib: .inf\<close> in the rules file), \<^verbatim>\<open>int()\<close> raises
  \<^verbatim>\<open>OverflowError\<close> and \<open>match_rules\<close> raises instead of returning the category of
  the rule without a limit.
\<close>

theorem match_rules_first_match_infinite_limit:
  "match_rules L [''a.example'']
     (PDict [(''rules'',
        PList [PDict [(''match'', PStr ''a.example''), (''category'', PStr ''x''),
                      (''up_limit_kib'', PFloat PosInf)]])])
   = Inl OverflowError"
  by (simp add: match_rules_def is_hit_def apply_rule_def)

subsection \<open>Defaults\<close>

lemma match_rules_defaults:
  assumes cfg: "py_get rules_cfg ''rules'' (PList []) = Inr rules"
    and rules: "hosts = [] \<or> py_iter rules = Inr rs"
    and none: "\<forall>h\<in>set hosts. \<forall>r\<in>set rs. no_match L h r"
    and dflt: "py_get rules_cfg ''defaults'' (PDict []) = Inr (PDict dflt)"
  shows "match_rules L hosts rules_cfg =
           (case map_of dflt ''up_limit_kib'' of
              None \<Rightarrow> Inr (rule_category dflt, None)
            | Some v \<Rightarrow>
                (case py_int L v of
                   Inr n \<Rightarrow> Inr (rule_category dflt, Some n)
                 | Inl e \<Rightarrow> if e = TypeError \<or> e = ValueError
                            then Inr (rule_category dflt, None) else Inl e))"
proof -
  have "scan_hosts L hosts rules = Inr None"
    using rules none by (auto simp: scan_hosts_no_match)
  then show ?thesis
    using cfg dflt
    by (auto simp: match_rules_def apply_defaults_def rule_category_def Let_def
          split: option.splits sum.splits py_error.splits)
qed

lemma match_rules_empty_cfg: "match_rules L hosts (PDict []) = Inr (None, None)"
  using scan_hosts_no_match [of "PList []" "[]" hosts L]
  by (simp add: match_rules_def apply_defaults_def)

lemma match_rules_empty_rules_and_defaults:
  "match_rules L hosts (PDict [(''defaults'', PDict []), (''rules'', PList [])])
     = Inr (None, None)"
  using scan_hosts_no_match [of "PList []" "[]" hosts L]
  by (simp add: match_rules_def apply_defaults_def)

text \<open>
  Claim C2. When no rule matches any host the matcher falls back to the defaults: the
  category of the defaults if it is not empty, and their limit if \<^verbatim>\<open>int()\<close> accepts
  it; a failing coercion should leave the limit out and raise nothing. The lemmas above
  show this for a limit that \<^verbatim>\<open>int()\<close> accepts or refuses with \<^verbatim>\<open>TypeError\<close> or
  \<^verbatim>\<open>ValueError\<close>, and that an empty rule set with empty defaults gives
  \<^verbatim>\<open>(None, None)\<close>. The handler at lines 185 to 186 names these two exceptions only.
  A limit that is a float infinity (\<^verbatim>\<open>up_limit_kib: .inf\<close> in the rules file) makes
  \<^verbatim>\<open>int()\<close> raise \<^verbatim>\<open>OverflowError\<close>, which the handler lets through: with no
  host and no rule, \<open>match_rules\<close> raises instead of returning the defaults without a
  limit.
\<close>

theorem match_rules_defaults_infinite_limit:
  "match_rules L []
     (PDict [(''rules'', PList []),
             (''defaults'', PDict [(''up_limit_kib'', PFloat PosInf)])])
   = Inl OverflowError"
  by (simp add: match_rules_def apply_defaults_def)

subsection \<open>Invalid patterns\<close>

lemma is_hit_not_ReError: "is_hit L h r \<noteq> Inl ReError"
  by (auto simp: is_hit_def Let_def split: sum.splits py_error.splits)

lemma py_int_not_ReError: "py_int L v \<noteq> Inl ReError"
  by (induction L v rule: py_int.induct) (auto split: option.splits)

lemma apply_rule_not_ReError: "apply_rule L r \<noteq> Inl ReError"
  using py_int_not_ReError
  by (auto simp: apply_rule_def Let_def split: option.splits sum.splits py_error.splits)

lemma scan_rules_not_ReError: "scan_rules L h rs \<noteq> Inl ReError"
  by (induction L h rs rule: scan_rules.induct)
     (auto simp: is_hit_not_ReError apply_rule_not_ReError split: sum.splits bool.splits)

lemma py_iter_not_ReError: "py_iter v \<noteq> Inl ReError"
  by (cases v) auto

lemma py_get_not_ReError: "py_get v k d \<noteq> Inl ReError"
  by (cases v) auto

lemma scan_hosts_not_ReError: "scan_hosts L hs rules \<noteq> Inl ReError"
  by (induction hs)
     (auto simp: py_iter_not_ReError scan_rules_not_ReError split: sum.splits option.splits)

lemma apply_defaults_not_ReError: "apply_defaults L c u d \<noteq> Inl ReError"
  using py_int_not_ReError
  by (auto simp: apply_defaults_def Let_def split: pyval.splits sum.splits py_error.splits)

lemma match_rules_not_ReError: "match_rules L hosts cfg \<noteq> Inl ReError"
  by (auto simp: match_rules_def py_get_not_ReError scan_hosts_not_ReError
        apply_defaults_not_ReError split: sum.splits option.splits)

lemma invalid_regex_no_match:
  assumes "map_of bad ''match_regex'' = Some (PStr p)" and "re_search L p h = Inl ReError"
    and "map_of bad ''match'' \<noteq> Some (PStr h)"
  shows "is_hit L h bad = Inr False"
  using assms by (auto simp: is_hit_def Let_def split: option.splits)

text \<open>
  Patterns that do not compile. The exception \<^verbatim>\<open>re.error\<close> leaves \<open>match_rules\<close>
  for no host list and no rule set. A rule \<open>bad\<close> whose
  \<^verbatim>\<open>match_regex\<close> is a string that does not compile, and whose \<^verbatim>\<open>match\<close> is not
  the host, counts as not matching and is skipped; a later rule \<open>good\<close> that matches the
  same host then decides the result (the other rules before \<open>good\<close> do not match the
  host).
\<close>

theorem match_rules_invalid_regex:
  assumes cfg: "py_get rules_cfg ''rules'' (PList []) = Inr rules"
    and rules: "py_iter rules = Inr (rs1 @ PDict bad # rs2 @ PDict good # rs3)"
    and bad: "map_of bad ''match_regex'' = Some (PStr p)" "re_search L p h = Inl ReError"
    and exact: "map_of bad ''match'' \<noteq> Some (PStr h)"
    and others: "\<forall>r'\<in>set rs1 \<union> set rs2. no_match L h r'"
    and good: "is_hit L h good = Inr True"
  shows "is_hit L h bad = Inr False \<and>
         match_rules L (h # hs) rules_cfg = apply_rule L good \<and>
         (\<forall>hosts' cfg'. match_rules L hosts' cfg' \<noteq> Inl ReError)"
proof -
  have miss: "is_hit L h bad = Inr False"
    using bad exact by (rule invalid_regex_no_match)
  then have "\<forall>r'\<in>set (rs1 @ PDict bad # rs2). no_match L h r'"
    using others by (auto simp: no_match_def)
  from scan_rules_first_hit [OF this good, of rs3]
  have "scan_rules L h (rs1 @ PDict bad # rs2 @ PDict good # rs3) =
          (case apply_rule L good of Inl e \<Rightarrow> Inl e | Inr d \<Rightarrow> Inr (Some d))"
    by simp
  then have "match_rules L (h # hs) rules_cfg = apply_rule L good"
    using cfg rules by (simp add: match_rules_def split: sum.splits)
  with miss match_rules_not_ReError show ?thesis by blast
qed

text \<open>
  An instance: the pattern \<^verbatim>\<open>[\<close> does not compile; the rule after it matches the
  host \<^verbatim>\<open>a.example\<close> exactly, and its category and limit are returned.
\<close>

theorem match_rules_invalid_regex_witness:
  "is_hit lib0 ''a.example'' [(''match_regex'', PStr ''[''), (''category'', PStr ''bad'')]
     = Inr False \<and>
   match_rules lib0 (''a.example'' # [''b.example''])
     (PDict [(''rules'', PList (
        [PDict [(''match'', PStr ''b.example'')]] @
        PDict [(''match_regex'', PStr ''[''), (''category'', PStr ''bad'')] #
        [] @
        PDict [(''match'', PStr ''a.example''), (''category'', PStr ''good''),
               (''up_limit_kib'', PStr ''100'')] #
        []))])
     = Inr (Some (PStr ''good''), Some 100)"
  using match_rules_invalid_regex [where L = lib0
      and rules_cfg = "PDict [(''rules'', PList (
        [PDict [(''match'', PStr ''b.example'')]] @
        PDict [(''match_regex'', PStr ''[''), (''category'', PStr ''bad'')] #
        [] @
        PDict [(''match'', PStr ''a.example''), (''category'', PStr ''good''),
               (''up_limit_kib'', PStr ''100'')] #
        []))]"
      and rules = "PList (
        [PDict [(''match'', PStr ''b.example'')]] @
        PDict [(''match_regex'', PStr ''[''), (''category'', PStr ''bad'')] #
        [] @
        PDict [(''match'', PStr ''a.example''), (''category'', PStr ''good''),
               (''up_limit_kib'', PStr ''100'')] #
        [])"
      and ?rs1.0 = "[PDict [(''match'', PStr ''b.example'')]]"
      and bad = "[(''match_regex'', PStr ''[''), (''category'', PStr ''bad'')]"
      and ?rs2.0 = "[]"
      and good = "[(''match'', PStr ''a.example''), (''category'', PStr ''good''),
               (''up_limit_kib'', PStr ''100'')]"
      and ?rs3.0 = "[]" and p = "''[''" and h = "''a.example''" and hs = "[''b.example'']"]
  by (simp add: no_match_def is_hit_def apply_rule_def lib0_def)

text \<open>
  Claim C3. An invalid pattern in a rule should never make the matcher raise: the rule
  should count as not matching, and a later rule that matches the same host should
  decide. This holds for the patterns on which \<^verbatim>\<open>re.search\<close> raises
  \<^verbatim>\<open>re.error\<close>, as shown above, and the handler at line 165 names this exception
  only. On the pattern \<^verbatim>\<open>a{4294967296}\<close> (a repetition count beyond the maximum)
  \<^verbatim>\<open>re.search\<close> raises \<^verbatim>\<open>OverflowError\<close>, which the handler lets through: the
  matcher raises, although the next rule matches the host.
\<close>

theorem match_rules_regex_overflow:
  "match_rules lib0 [''a.example'']
     (PDict [(''rules'',
        PList [PDict [(''match_regex'', PStr ''a{4294967296}'')],
               PDict [(''match'', PStr ''a.example''), (''category'', PStr ''x'')]])])
   = Inl OverflowError"
  by (simp add: match_rules_def is_hit_def lib0_def)

subsection \<open>The sign of the limit\<close>

lemma apply_rule_limit:
  "apply_rule L r = Inr (c, Some n) \<Longrightarrow> n \<in> set (limit_of L (PDict r))"
  by (auto simp: apply_rule_def Let_def split: option.splits sum.splits py_error.splits)

lemma scan_rules_limit:
  "scan_rules L h rs = Inr (Some (c, Some n)) \<Longrightarrow>
     \<exists>r\<in>set rs. n \<in> set (limit_of L r)"
proof (induction L h rs rule: scan_rules.induct)
  case (2 L host rule rules)
  then show ?case
    by (auto split: sum.splits bool.splits dest: apply_rule_limit simp del: limit_of.simps)
qed simp_all

lemma scan_hosts_limit:
  "scan_hosts L hs rules = Inr (Some (c, Some n)) \<Longrightarrow>
     \<exists>rs. py_iter rules = Inr rs \<and> (\<exists>r\<in>set rs. n \<in> set (limit_of L r))"
proof (induction hs)
  case (Cons h hs)
  then show ?case
    by (auto split: sum.splits option.splits dest: scan_rules_limit)
qed simp

lemma apply_defaults_limit:
  "apply_defaults L None None d = Inr (c, Some n) \<Longrightarrow> n \<in> set (limit_of L d)"
  by (auto simp: apply_defaults_def Let_def
        split: pyval.splits option.splits sum.splits py_error.splits if_splits)

text \<open>
  Claim C4 says that a limit the matcher returns is a non-negative integer. The matcher
  returns what \<^verbatim>\<open>int()\<close> makes of the configured value and does not look at its sign:
  a rule with \<^verbatim>\<open>up_limit_kib: -5\<close> that matches gives the limit \<open>-5\<close>. (The
  floor at zero is applied later, in \<^verbatim>\<open>qb_set_upload_limit\<close>.)
\<close>

theorem match_rules_negative_limit:
  "match_rules lib0 [''a.example'']
     (PDict [(''rules'',
        PList [PDict [(''match'', PStr ''a.example''), (''up_limit_kib'', PInt (- 5))]])])
   = Inr (None, Some (- 5)) \<and> (- 5 :: int) < 0"
  by (simp add: match_rules_def is_hit_def apply_rule_def)

text \<open>
  Claim C4, amended. A limit the matcher returns is an integer: the value \<^verbatim>\<open>int()\<close>
  gives for the \<^verbatim>\<open>up_limit_kib\<close> entry of one of the rules or of the defaults. So it
  is non-negative whenever every limit the rule set configures is non-negative; a
  negative configured limit is returned as it is.
\<close>

theorem match_rules_limit_configured:
  assumes "match_rules L hosts rules_cfg = Inr (c, Some n)"
  shows "n \<in> set (configured_limits L rules_cfg) \<and>
         ((\<forall>m\<in>set (configured_limits L rules_cfg). 0 \<le> m) \<longrightarrow> 0 \<le> n)"
proof -
  obtain rules where rules: "py_get rules_cfg ''rules'' (PList []) = Inr rules"
    using assms by (auto simp: match_rules_def split: sum.splits)
  have "n \<in> set (configured_limits L rules_cfg)"
  proof (cases "scan_hosts L hosts rules")
    case (Inl e)
    with assms rules show ?thesis by (simp add: match_rules_def)
  next
    case (Inr res)
    show ?thesis
    proof (cases res)
      case None
      with Inr assms rules obtain d where
        "py_get rules_cfg ''defaults'' (PDict []) = Inr d"
        "apply_defaults L None None d = Inr (c, Some n)"
        by (auto simp: match_rules_def split: sum.splits)
      then show ?thesis
        using apply_defaults_limit [of L d c n] by (simp add: configured_limits_def)
    next
      case (Some d)
      with Inr assms rules have "scan_hosts L hosts rules = Inr (Some (c, Some n))"
        by (simp add: match_rules_def)
      from scan_hosts_limit [OF this] rules show ?thesis
        by (auto simp: configured_limits_def)
    qed
  qed
  then show ?thesis by blast
qed

text \<open>
  An instance: one rule with the limit 500 and defaults with the limit \<^verbatim>\<open>"100"\<close>;
  both configured limits are non-negative, and the rule's limit is returned.
\<close>

theorem match_rules_limit_configured_witness:
  "match_rules lib0 [''a.example'']
     (PDict [(''rules'',
        PList [PDict [(''match'', PStr ''a.example''), (''up_limit_kib'', PInt 500)]]),
        (''defaults'', PDict [(''up_limit_kib'', PStr ''100'')])])
     = Inr (None, Some 500) \<and>
   configured_limits lib0
     (PDict [(''rules'',
        PList [PDict [(''match'', PStr ''a.example''), (''up_limit_kib'', PInt 500)]]),
        (''defaults'', PDict [(''up_limit_kib'', PStr ''100'')])])
     = [500, 100] \<and>
   (0 :: int) \<le> 500"
  using match_rules_limit_configured [where L = lib0 and hosts = "[''a.example'']"
      and rules_cfg = "PDict [(''rules'',
        PList [PDict [(''match'', PStr ''a.example''), (''up_limit_kib'', PInt 500)]]),
        (''defaults'', PDict [(''up_limit_kib'', PStr ''100'')])]"
      and c = None and n = 500]
  by (simp add: match_rules_def is_hit_def apply_rule_def configured_limits_def lib0_def)

section \<open>Properties of the hostname extractor\<close>


lemma count_list_distinct: "distinct xs \<Longrightarrow> x \<in> set xs \<Longrightarrow> count_list xs x = 1"
  by (induction xs) auto

lemma map_filter_app: "List.map_filter f (xs @ ys) = List.map_filter f xs @ List.map_filter f ys"
  by (simp add: List.map_filter_def)

lemma collect_hosts_dicts:
  "collect_hosts L (map PDict ds) hosts = Inr (hosts @ List.map_filter (tracker_host L) ds)"
  by (induction ds arbitrary: hosts) (auto simp: List.map_filter_simps split: option.splits)

lemma skipped_tracker_host: "skipped L tr \<Longrightarrow> tracker_host L tr = None"
  by (auto simp: skipped_def tracker_host_def url_of_def Let_def split: sum.splits option.splits)

lemma unique_loop_prefix: "\<exists>rest. unique_loop hs seen acc = acc @ rest"
proof (induction hs arbitrary: seen acc)
  case Nil
  show ?case by simp
next
  case (Cons h hs)
  from Cons [of "insert h seen" "acc @ [h]"] Cons [of seen acc]
  show ?case by auto
qed

lemma unique_loop_set: "set (unique_loop hs (set acc) acc) = set acc \<union> set hs"
proof (induction hs arbitrary: acc)
  case Nil
  show ?case by simp
next
  case (Cons h hs)
  from Cons [of "acc @ [h]"] Cons [of acc]
  show ?case by auto
qed

lemma unique_loop_distinct: "distinct acc \<Longrightarrow> distinct (unique_loop hs (set acc) acc)"
proof (induction hs arbitrary: acc)
  case Nil
  then show ?case by simp
next
  case (Cons h hs)
  from Cons.IH [of "acc @ [h]"] Cons.IH [of acc] Cons.prems
  show ?case by auto
qed

lemma unique_loop_first_appearance:
  assumes "x \<notin> set pre" and "x \<notin> set acc"
  shows "\<exists>o1 o2. unique_loop (pre @ x # post) (set acc) acc = o1 @ x # o2 \<and>
                 set o1 = set acc \<union> set pre"
  using assms
proof (induction pre arbitrary: acc)
  case Nil
  obtain rest where "unique_loop post (set (acc @ [x])) (acc @ [x]) = (acc @ [x]) @ rest"
    using unique_loop_prefix by blast
  with Nil show ?case by auto
next
  case (Cons p pre)
  show ?case
  proof (cases "p \<in> set acc")
    case True
    with Cons.IH [of acc] Cons.prems show ?thesis by auto
  next
    case False
    from Cons.prems have "x \<notin> set (acc @ [p])" by auto
    with Cons.IH [of "acc @ [p]"] Cons.prems False show ?thesis by auto
  qed
qed

lemma extract_hostnames_dicts:
  "extract_hostnames_from_trackers L (PList (map PDict ds)) =
     Inr (unique_loop (List.map_filter (tracker_host L) ds) {} [])"
  by (simp add: extract_hostnames_from_trackers_def collect_hosts_dicts)

lemma tracker_host_spec: "tracker_host L tr = spec_hostname L tr"
  by (auto simp: tracker_host_def spec_hostname_def Let_def
        split: option.splits pyval.splits sum.splits)

lemma set_map_filter: "set (List.map_filter f xs) = {y. \<exists>x\<in>set xs. f x = Some y}"
  by (induction xs) (auto simp: List.map_filter_simps split: option.splits)

text \<open>
  Claim C5. For every list of tracker records, the output of the extractor holds each
  hostname that the URL of some record resolves to, and nothing else, exactly once; two
  records with distinct URLs may resolve to the same hostname. The output is in the
  order of first appearance in the input: when the record \<open>d\<close> is the first in the list
  that resolves to \<open>h\<close>, after the records \<open>ds1\<close>, the output holds before \<open>h\<close> exactly
  the hostnames that the records of \<open>ds1\<close> resolve to.
\<close>

theorem extract_hostnames_unique:
  "\<exists>out. extract_hostnames_from_trackers L (PList (map PDict ds)) = Inr out \<and>
     distinct out \<and>
     set out = {h. \<exists>d\<in>set ds. spec_hostname L d = Some h} \<and>
     (\<forall>d\<in>set ds. \<forall>h. spec_hostname L d = Some h \<longrightarrow> count_list out h = 1) \<and>
     (\<forall>ds1 d ds2 h.
        ds = ds1 @ d # ds2 \<and> spec_hostname L d = Some h \<and>
        (\<forall>d'\<in>set ds1. spec_hostname L d' \<noteq> Some h) \<longrightarrow>
        (\<exists>o1 o2. out = o1 @ h # o2 \<and>
           set o1 = {h'. \<exists>d'\<in>set ds1. spec_hostname L d' = Some h'}))"
proof -
  let ?f = "spec_hostname L"
  let ?out = "unique_loop (List.map_filter ?f ds) {} []"
  have "tracker_host L = ?f"
    by (rule ext) (rule tracker_host_spec)
  then have run: "extract_hostnames_from_trackers L (PList (map PDict ds)) = Inr ?out"
    by (simp add: extract_hostnames_dicts)
  have d: "distinct ?out"
    using unique_loop_distinct [of "[]" "List.map_filter ?f ds"] by simp
  have s: "set ?out = {h. \<exists>d\<in>set ds. ?f d = Some h}"
    using unique_loop_set [of "List.map_filter ?f ds" "[]"] by (simp add: set_map_filter)
  have c: "\<forall>d\<in>set ds. \<forall>h. ?f d = Some h \<longrightarrow> count_list ?out h = 1"
  proof (intro ballI allI impI)
    fix d' h
    assume "d' \<in> set ds" and "?f d' = Some h"
    with s have "h \<in> set ?out" by blast
    with d show "count_list ?out h = 1" by (rule count_list_distinct)
  qed
  have f: "\<forall>ds1 d ds2 h.
        ds = ds1 @ d # ds2 \<and> ?f d = Some h \<and> (\<forall>d'\<in>set ds1. ?f d' \<noteq> Some h) \<longrightarrow>
        (\<exists>o1 o2. ?out = o1 @ h # o2 \<and> set o1 = {h'. \<exists>d'\<in>set ds1. ?f d' = Some h'})"
  proof (intro allI impI)
    fix ds1 d ds2 h
    assume a: "ds = ds1 @ d # ds2 \<and> ?f d = Some h \<and> (\<forall>d'\<in>set ds1. ?f d' \<noteq> Some h)"
    then have split: "List.map_filter ?f ds =
        List.map_filter ?f ds1 @ h # List.map_filter ?f ds2"
      by (simp add: map_filter_app List.map_filter_simps)
    have fresh: "h \<notin> set (List.map_filter ?f ds1)"
      using a by (simp add: set_map_filter)
    from unique_loop_first_appearance [of h "List.map_filter ?f ds1" "[]" "List.map_filter ?f ds2"]
      fresh split
    show "\<exists>o1 o2. ?out = o1 @ h # o2 \<and> set o1 = {h'. \<exists>d'\<in>set ds1. ?f d' = Some h'}"
      by (simp add: set_map_filter)
  qed
  from run d s c f show ?thesis by blast
qed

text \<open>
  An instance: five records; the first and the third resolve to \<^verbatim>\<open>t.example\<close> by
  different URLs, the second and the fifth to \<^verbatim>\<open>b.example\<close>, the fourth to
  \<^verbatim>\<open>c.example\<close>.
\<close>

theorem extract_hostnames_unique_witness:
  "extract_hostnames_from_trackers lib0
     (PList (map PDict
        [[(''url'', PStr ''http://t.example/announce'')],
         [(''url'', PStr ''https://b.example/a'')],
         [(''url'', PStr ''udp://t.example:6969/announce'')],
         [(''url'', PStr ''http://c.example:80/x'')],
         [(''url'', PStr ''https://b.example/a'')]]))
   = Inr [''t.example'', ''b.example'', ''c.example'']"
  using extract_hostnames_unique [where L = lib0 and ds =
        "[[(''url'', PStr ''http://t.example/announce'')],
         [(''url'', PStr ''https://b.example/a'')],
         [(''url'', PStr ''udp://t.example:6969/announce'')],
         [(''url'', PStr ''http://c.example:80/x'')],
         [(''url'', PStr ''https://b.example/a'')]]"]
  by (simp add: extract_hostnames_from_trackers_def tracker_host_def lib0_def)

text \<open>
  Claim C6. On a list of tracker records (dictionaries) the extractor raises nothing and
  returns a list; on the empty list it returns the empty list. A record that is skipped
  (its URL is absent or empty, parsing it raises, or parsing it yields no hostname)
  leaves no trace: the output is the output for the list without this record.
\<close>

theorem extract_hostnames_never_raises:
  "(\<exists>out. extract_hostnames_from_trackers L (PList (map PDict ds)) = Inr out) \<and>
   extract_hostnames_from_trackers L (PList []) = Inr [] \<and>
   (skipped L tr \<longrightarrow>
      extract_hostnames_from_trackers L (PList (map PDict (ds1 @ tr # ds2))) =
      extract_hostnames_from_trackers L (PList (map PDict (ds1 @ ds2))))"
proof -
  have "extract_hostnames_from_trackers L (PList []) = Inr []"
    by (simp add: extract_hostnames_from_trackers_def)
  moreover have "skipped L tr \<longrightarrow>
      extract_hostnames_from_trackers L (PList (map PDict (ds1 @ tr # ds2))) =
      extract_hostnames_from_trackers L (PList (map PDict (ds1 @ ds2)))"
    unfolding extract_hostnames_dicts
    by (simp add: map_filter_app List.map_filter_simps skipped_tracker_host)
  ultimately show ?thesis
    unfolding extract_hostnames_dicts by blast
qed

text \<open>
  An instance: the URL \<^verbatim>\<open>http://[::1\<close>, on which \<^verbatim>\<open>urlparse\<close> raises, between
  two well-formed ones.
\<close>

theorem extract_hostnames_never_raises_witness:
  "skipped lib0 [(''url'', PStr ''http://[::1'')] \<and>
   extract_hostnames_from_trackers lib0
     (PList (map PDict ([[(''url'', PStr ''http://t.example/announce'')]] @
        [(''url'', PStr ''http://[::1'')] # [[(''url'', PStr ''https://b.example/a'')]]))) =
   Inr [''t.example'', ''b.example'']"
  using extract_hostnames_never_raises [where L = lib0
      and tr = "[(''url'', PStr ''http://[::1'')]"
      and ?ds1.0 = "[[(''url'', PStr ''http://t.example/announce'')]]"
      and ?ds2.0 = "[[(''url'', PStr ''https://b.example/a'')]]"]
  by (simp add: skipped_def url_of_def extract_hostnames_from_trackers_def tracker_host_def lib0_def)

section \<open>Properties of the remote calls and of the orchestrator\<close>

lemmas step_defs = seq_def return_def raise_def sys_exit_def lift_def print_err_def
  print_out_def http_def session_post_def session_get_def

lemma qb_login_missing:
  assumes "\<not> truthy (py_opt_str username) \<or> \<not> truthy (py_opt_str password)"
  shows "qb_login E s base_url username password w =
           (Exit 2, w\<lparr>printed := printed w @ [Stderr ''Error: Missing username/password. Provide --username/--password or env QBT_USERNAME/QBT_PASSWORD.'']\<rparr>)"
  using assms by (auto simp: qb_login_def step_defs)

lemma qb_login_answer:
  assumes "truthy (py_opt_str username)" and "truthy (py_opt_str password)"
    and "remote E (calls w) (login_request s base_url username password) = Inr resp"
  shows "qb_login E s base_url username password w =
           (if status_code resp \<noteq> 200 \<or> resp_text resp \<noteq> ''Ok.'' then
              (Exit 1, w\<lparr>calls := calls w @ [login_request s base_url username password],
                         printed := printed w @ [Stderr (''Error: Login failed (status ''
                           @ py_str_int (status_code resp) @ ''): '' @ resp_text resp)]\<rparr>)
            else (Return (), w\<lparr>calls := calls w @ [login_request s base_url username password]\<rparr>))"
  using assms by (simp add: qb_login_def step_defs login_request_def)

lemma main_login_exit:
  assumes "qb_login E \<lparr>verify = \<not> arg_insecure a\<rparr> (arg_host a) (arg_username a) (arg_password a) w = (Exit n, w')"
  shows "main L E a w = Some (Exit n, w')"
  using assms by (simp add: main_def before_poll_def seq_def)

lemma qb_find_answer:
  assumes "remote E (calls w) (tag_query s b t) = Inr resp" and "status_code resp = 200"
    and "resp_json resp = Inr found"
  shows "qb_find_torrents_by_tag E s b t w = (Return found, w\<lparr>calls := calls w @ [tag_query s b t]\<rparr>)"
  using assms by (simp add: qb_find_torrents_by_tag_def step_defs tag_query_def)

lemma poll_timeout:
  assumes "\<forall>i<k. clock E (clock_reads w + i) < deadline"
    and "\<not> clock E (clock_reads w + k) < deadline"
    and "\<forall>i<k. \<exists>resp found. remote E (calls w @ replicate i (tag_query s b t)) (tag_query s b t) = Inr resp \<and>
           status_code resp = 200 \<and> resp_json resp = Inr found \<and> \<not> truthy found"
    and "\<not> truthy torrents"
  shows "\<exists>ts w'. poll E s b t deadline torrents w = Some (Return ts, w') \<and> \<not> truthy ts \<and>
           calls w' = calls w @ replicate k (tag_query s b t) \<and> printed w' = printed w"
  using assms
proof (induction k arbitrary: w torrents)
  case 0
  then show ?case
    by (subst poll.simps) (simp add: time_time_def)
next
  case (Suc k)
  let ?q = "tag_query s b t"
  from Suc.prems(1) have now: "clock E (clock_reads w) < deadline"
    by (metis add.right_neutral zero_less_Suc)
  from Suc.prems(3) obtain resp found where
    r: "remote E (calls w) ?q = Inr resp" "status_code resp = 200"
       "resp_json resp = Inr found" "\<not> truthy found"
    by (metis append_Nil2 replicate_0 zero_less_Suc)
  let ?w1 = "w\<lparr>clock_reads := Suc (clock_reads w)\<rparr>"
  let ?w2 = "?w1\<lparr>calls := calls ?w1 @ [?q]\<rparr>"
  let ?w3 = "?w2\<lparr>sleeps := Suc (sleeps ?w2)\<rparr>"
  have find: "qb_find_torrents_by_tag E s b t ?w1 = (Return found, ?w2)"
    using r by (intro qb_find_answer) simp_all
  have unfold: "poll E s b t deadline torrents w = poll E s b t deadline found ?w3"
    by (subst poll.simps) (simp add: time_time_def now find r time_sleep_def)
  have a1: "\<forall>i<k. clock E (clock_reads ?w3 + i) < deadline"
    using Suc.prems(1) by (auto dest: spec [of _ "Suc i" for i])
  have a2: "\<not> clock E (clock_reads ?w3 + k) < deadline"
    using Suc.prems(2) by simp
  have a3: "\<forall>i<k. \<exists>resp found. remote E (calls ?w3 @ replicate i ?q) ?q = Inr resp \<and>
           status_code resp = 200 \<and> resp_json resp = Inr found \<and> \<not> truthy found"
  proof (intro allI impI)
    fix i assume "i < k"
    then have "Suc i < Suc k" by simp
    with Suc.prems(3) show "\<exists>resp found. remote E (calls ?w3 @ replicate i ?q) ?q = Inr resp \<and>
           status_code resp = 200 \<and> resp_json resp = Inr found \<and> \<not> truthy found"
      by (auto dest!: spec [of _ "Suc i"])
  qed
  from Suc.IH [OF a1 a2 a3 r(4)] obtain ts w' where
    "poll E s b t deadline found ?w3 = Some (Return ts, w')" "\<not> truthy ts"
    "calls w' = calls ?w3 @ replicate k ?q" "printed w' = printed ?w3"
    by blast
  with unfold show ?case
    by (auto simp: replicate_append_same)
qed

text \<open>
  Claim C8. Take a run that reaches the loop: the login, the rules and the submission went
  through, and \<open>w1\<close> is the world when the loop starts. Suppose the timeout elapses with
  no result ever seen: the clock stays before the deadline for \<open>k\<close> tests of the loop
  condition and is not before it at the next one, and each of the \<open>k\<close> queries by tag is
  answered with status 200 and an empty result. Then the run ends with exit status 1 and
  the error line on the standard error stream, and after the requests sent before the
  loop it has sent the \<open>k\<close> queries by tag and nothing else: no request for the trackers,
  the categories, the upload limit, the tag removal or the resume.
\<close>

theorem main_registration_timeout:
  assumes start: "before_poll E \<lparr>verify = \<not> arg_insecure a\<rparr> a w =
                    (Return (rules_cfg, tag, deadline), w1)"
    and early: "\<forall>i<k. clock E (clock_reads w1 + i) < deadline"
    and late: "\<not> clock E (clock_reads w1 + k) < deadline"
    and empty: "\<forall>i<k. \<exists>resp found.
           remote E (calls w1 @ replicate i (tag_query \<lparr>verify = \<not> arg_insecure a\<rparr> (arg_host a) tag))
             (tag_query \<lparr>verify = \<not> arg_insecure a\<rparr> (arg_host a) tag) = Inr resp \<and>
           status_code resp = 200 \<and> resp_json resp = Inr found \<and> \<not> truthy found"
  shows "\<exists>w'. main L E a w = Some (Exit 1, w') \<and>
           map_option (\<lambda>r. exit_code (fst r)) (main L E a w) = Some 1 \<and>
           calls w' = calls w1 @ replicate k (tag_query \<lparr>verify = \<not> arg_insecure a\<rparr> (arg_host a) tag) \<and>
           printed w' = printed w1 @ [Stderr ''Error: Added torrent not found by tag within timeout.'']"
proof -
  let ?s = "\<lparr>verify = \<not> arg_insecure a\<rparr>"
  from poll_timeout [OF early late empty, of "PList []"] obtain ts w2 where
    p: "poll E ?s (arg_host a) tag deadline (PList []) w1 = Some (Return ts, w2)"
       "\<not> truthy ts" "calls w2 = calls w1 @ replicate k (tag_query ?s (arg_host a) tag)"
       "printed w2 = printed w1"
    by auto
  have "main L E a w = Some (after_poll L E ?s a rules_cfg tag ts w2)"
    using start p(1) by (simp add: main_def)
  moreover have "after_poll L E ?s a rules_cfg tag ts w2 =
      (Exit 1, w2\<lparr>printed := printed w2 @ [Stderr ''Error: Added torrent not found by tag within timeout.'']\<rparr>)"
    using p(2) by (simp add: after_poll_def seq_def print_err_def sys_exit_def)
  ultimately show ?thesis using p(3,4) by simp
qed

text \<open>
  An instance: the clock advances by ten seconds per reading and the timeout is 20
  seconds, so the loop queries once; the remote client lists nothing.
\<close>

theorem main_registration_timeout_witness:
  "\<exists>w'. main lib0 (env0 200 ''Ok.'') (args0 (Some ''admin'')) world0 = Some (Exit 1, w') \<and>
     map req_url (calls w') =
       [''http://qb/api/v2/auth/login'', ''http://qb/api/v2/torrents/add'',
        ''http://qb/api/v2/torrents/info''] \<and>
     printed w' = [Stderr ''Error: Added torrent not found by tag within timeout.'']"
proof -
  let ?E = "env0 200 ''Ok.''" and ?a = "args0 (Some ''admin'')"
  let ?tag = "''qbt-rules-1b4e28ba-2fa1-11d2-883f-0016d3cca427''"
  let ?w1 = "\<lparr>calls =
          [login_request \<lparr>verify = True\<rparr> ''http://qb'' (Some ''admin'') (Some ''adminadmin''),
           \<lparr>req_method = POST, req_url = ''http://qb/api/v2/torrents/add'',
            req_data = [(''paused'', PStr ''true''), (''tags'', PStr ?tag),
                        (''urls'', PStr ''magnet:?xt=urn:btih:c12fe1c06bba254a9dc9f519b335aa7c1367a88a'')],
            req_params = [], req_files = [], req_verify = True\<rparr>],
          printed = [], clock_reads = 1, sleeps = 0\<rparr>"
  let ?q = "tag_query \<lparr>verify = \<not> arg_insecure ?a\<rparr> (arg_host ?a) ?tag"
  have start: "before_poll ?E \<lparr>verify = \<not> arg_insecure ?a\<rparr> ?a world0 =
      (Return (PDict [(''defaults'', PDict []), (''rules'', PList [])], ?tag, 20), ?w1)"
    by (simp add: before_poll_def qb_login_def load_rules_def qb_add_source_def time_time_def
        step_defs env0_def args0_def world0_def login_request_def)
  have early: "\<forall>i<1. clock ?E (clock_reads ?w1 + i) < 20"
    by (simp add: env0_def)
  have late: "\<not> clock ?E (clock_reads ?w1 + 1) < 20"
    by (simp add: env0_def)
  have empty: "\<forall>i<1. \<exists>resp found. remote ?E (calls ?w1 @ replicate i ?q) ?q = Inr resp \<and>
      status_code resp = 200 \<and> resp_json resp = Inr found \<and> \<not> truthy found"
    by (simp add: env0_def args0_def tag_query_def)
  from main_registration_timeout [OF start early late empty, of lib0]
  show ?thesis
    by (auto simp: tag_query_def args0_def login_request_def)
qed

lemma digit_value_nth: "d < 10 \<Longrightarrow> digit_value (''0123456789'' ! d) = d"
proof -
  assume "d < 10"
  then have "d \<in> {0, 1, 2, 3, 4, 5, 6, 7, 8, 9}"
    by (simp only: insert_iff empty_iff) arith
  then show ?thesis
    by (auto simp: digit_value_def)
qed

lemma decimal_value_snoc: "decimal_value (s @ [c]) = 10 * decimal_value s + digit_value c"
  by (simp add: decimal_value_def)

lemma decimal_value_str_nat: "decimal_value (str_nat n) = n"
proof (induction n rule: str_nat.induct)
  case (1 n)
  show ?case
  proof (cases "n < 10")
    case True
    then show ?thesis
      by (subst str_nat.simps) (simp add: decimal_value_def digit_value_nth)
  next
    case False
    with 1 have "decimal_value (str_nat (n div 10)) = n div 10" by simp
    moreover have "digit_value (''0123456789'' ! (n mod 10)) = n mod 10"
      by (rule digit_value_nth) simp
    ultimately show ?thesis
      using False by (subst str_nat.simps) (simp add: decimal_value_snoc)
  qed
qed

text \<open>
  Claim C7. For a decided limit \<open>l\<close> (in KiB/s), \<^verbatim>\<open>qb_set_upload_limit\<close> sends one
  request to \<^verbatim>\<open>setUploadLimit\<close> whose \<^verbatim>\<open>limit\<close> field is the decimal numeral of
  \<open>l\<close> times 1024, floored at zero: 500 is sent as \<^verbatim>\<open>512000\<close>, 0 as \<^verbatim>\<open>0\<close>, and
  every negative limit as \<^verbatim>\<open>0\<close>.
\<close>

theorem qb_set_upload_limit_bytes:
  "calls (snd (qb_set_upload_limit E s base_url torrent_hash (Some l) w)) =
     calls w @
       [\<lparr>req_method = POST, req_url = base_url @ ''/api/v2/torrents/setUploadLimit'',
         req_data = [(''hashes'', torrent_hash), (''limit'', PStr (py_str_int (limit_bytes l)))],
         req_params = [], req_files = [], req_verify = verify s\<rparr>] \<and>
   limit_bytes l = max 0 (l * 1024) \<and>
   int (decimal_value (py_str_int (limit_bytes l))) = max 0 (l * 1024) \<and>
   py_str_int (limit_bytes 500) = ''512000'' \<and>
   py_str_int (limit_bytes 0) = ''0'' \<and>
   (l < 0 \<longrightarrow> py_str_int (limit_bytes l) = ''0'')"
proof -
  have "calls (snd (qb_set_upload_limit E s base_url torrent_hash (Some l) w)) =
     calls w @
       [\<lparr>req_method = POST, req_url = base_url @ ''/api/v2/torrents/setUploadLimit'',
         req_data = [(''hashes'', torrent_hash), (''limit'', PStr (py_str_int (limit_bytes l)))],
         req_params = [], req_files = [], req_verify = verify s\<rparr>]"
    by (simp add: qb_set_upload_limit_def step_defs split: sum.splits)
  moreover have "int (decimal_value (py_str_int (limit_bytes l))) = max 0 (l * 1024)"
    by (simp add: py_str_int_def limit_bytes_def decimal_value_str_nat)
  moreover have "py_str_int (limit_bytes 500) = ''512000''"
    by (simp add: py_str_int_def limit_bytes_def str_nat.simps)
  moreover have "py_str_int (limit_bytes 0) = ''0''"
    by (simp add: py_str_int_def limit_bytes_def str_nat.simps)
  moreover have "l < 0 \<longrightarrow> py_str_int (limit_bytes l) = ''0''"
    by (simp add: py_str_int_def limit_bytes_def str_nat.simps max_def)
  ultimately show ?thesis by (simp add: limit_bytes_def)
qed

text \<open>
  An instance: the limit \<open>-7\<close>.
\<close>

theorem qb_set_upload_limit_bytes_witness:
  "py_str_int (limit_bytes (- 7)) = ''0'' \<and>
   calls (snd (qb_set_upload_limit (env0 200 ''Ok.'') \<lparr>verify = True\<rparr> ''http://qb''
                 (PStr ''c12fe1c0'') (Some (- 7)) world0)) =
     [\<lparr>req_method = POST, req_url = ''http://qb/api/v2/torrents/setUploadLimit'',
       req_data = [(''hashes'', PStr ''c12fe1c0''), (''limit'', PStr ''0'')],
       req_params = [], req_files = [], req_verify = True\<rparr>]"
  using qb_set_upload_limit_bytes [where l = "- 7" and E = "env0 200 ''Ok.''"
      and s = "\<lparr>verify = True\<rparr>" and base_url = "''http://qb''"
      and torrent_hash = "PStr ''c12fe1c0''" and w = world0]
  by (simp add: world0_def limit_bytes_def)

text \<open>
  Claim C9. When the user name or the password is absent (or empty), the run ends with
  exit status 2 and has sent no request. When both are there and the remote client
  rejects the login (its answer has a status other than 200 or a text other than
  \<^verbatim>\<open>Ok.\<close>), the run ends with exit status 1 after the login request.
\<close>

theorem login_exit_codes:
  "(\<not> truthy (py_opt_str (arg_username a)) \<or> \<not> truthy (py_opt_str (arg_password a)) \<longrightarrow>
      (\<exists>w'. main L E a w = Some (Exit 2, w') \<and> calls w' = calls w \<and>
         map_option (\<lambda>r. exit_code (fst r)) (main L E a w) = Some 2)) \<and>
   (truthy (py_opt_str (arg_username a)) \<and> truthy (py_opt_str (arg_password a)) \<and>
    remote E (calls w) (login_request \<lparr>verify = \<not> arg_insecure a\<rparr> (arg_host a)
      (arg_username a) (arg_password a)) = Inr resp \<and>
    (status_code resp \<noteq> 200 \<or> resp_text resp \<noteq> ''Ok.'') \<longrightarrow>
      (\<exists>w'. main L E a w = Some (Exit 1, w') \<and>
         calls w' = calls w @ [login_request \<lparr>verify = \<not> arg_insecure a\<rparr> (arg_host a)
           (arg_username a) (arg_password a)] \<and>
         map_option (\<lambda>r. exit_code (fst r)) (main L E a w) = Some 1))"
proof (intro conjI impI)
  assume "\<not> truthy (py_opt_str (arg_username a)) \<or> \<not> truthy (py_opt_str (arg_password a))"
  from main_login_exit [OF qb_login_missing [OF this]]
  show "\<exists>w'. main L E a w = Some (Exit 2, w') \<and> calls w' = calls w \<and>
         map_option (\<lambda>r. exit_code (fst r)) (main L E a w) = Some 2"
    by simp
next
  let ?rq = "login_request \<lparr>verify = \<not> arg_insecure a\<rparr> (arg_host a) (arg_username a) (arg_password a)"
  assume h: "truthy (py_opt_str (arg_username a)) \<and> truthy (py_opt_str (arg_password a)) \<and>
    remote E (calls w) ?rq = Inr resp \<and> (status_code resp \<noteq> 200 \<or> resp_text resp \<noteq> ''Ok.'')"
  then have "qb_login E \<lparr>verify = \<not> arg_insecure a\<rparr> (arg_host a) (arg_username a) (arg_password a) w =
      (Exit 1, w\<lparr>calls := calls w @ [?rq],
                 printed := printed w @ [Stderr (''Error: Login failed (status ''
                   @ py_str_int (status_code resp) @ ''): '' @ resp_text resp)]\<rparr>)"
    using qb_login_answer [of "arg_username a" "arg_password a" E w "\<lparr>verify = \<not> arg_insecure a\<rparr>" "arg_host a" resp]
    by auto
  from main_login_exit [OF this]
  show "\<exists>w'. main L E a w = Some (Exit 1, w') \<and> calls w' = calls w @ [?rq] \<and>
         map_option (\<lambda>r. exit_code (fst r)) (main L E a w) = Some 1"
    by simp
qed

text \<open>
  An instance: a remote client that answers the login with status 403, first without a
  user name (the request is never sent), then with one.
\<close>

theorem login_exit_codes_witness:
  "(\<exists>w'. main lib0 (env0 403 ''Forbidden'') (args0 None) world0 = Some (Exit 2, w') \<and>
          calls w' = []) \<and>
   (\<exists>w'. main lib0 (env0 403 ''Forbidden'') (args0 (Some ''admin'')) world0 = Some (Exit 1, w') \<and>
          map req_url (calls w') = [''http://qb/api/v2/auth/login''])"
  using login_exit_codes [where L = lib0 and E = "env0 403 ''Forbidden''" and a = "args0 None"
      and w = world0]
    login_exit_codes [where L = lib0 and E = "env0 403 ''Forbidden''"
      and a = "args0 (Some ''admin'')" and w = world0
      and resp = "\<lparr>status_code = 403, resp_text = ''Forbidden'', resp_json = Inl JSONDecodeError\<rparr>"]
  by (auto simp: args0_def env0_def world0_def login_request_def)

text \<open>
  Claim C10. Status 200 is not enough for a login: when the answer has the status 200 and
  a text other than \<^verbatim>\<open>Ok.\<close>, the run reports the failed login with that text and
  ends with exit status 1, having sent the login request only.
\<close>

theorem login_requires_ok_body:
  assumes "truthy (py_opt_str (arg_username a))" and "truthy (py_opt_str (arg_password a))"
    and "remote E (calls w) (login_request \<lparr>verify = \<not> arg_insecure a\<rparr> (arg_host a)
           (arg_username a) (arg_password a)) = Inr resp"
    and "status_code resp = 200" and "resp_text resp \<noteq> ''Ok.''"
  shows "main L E a w =
           Some (Exit 1,
             w\<lparr>calls := calls w @ [login_request \<lparr>verify = \<not> arg_insecure a\<rparr> (arg_host a)
                                      (arg_username a) (arg_password a)],
               printed := printed w @
                 [Stderr (''Error: Login failed (status 200): '' @ resp_text resp)]\<rparr>)"
proof -
  have "py_str_int 200 = ''200''"
    by (simp add: py_str_int_def str_nat.simps)
  with assms show ?thesis
    using qb_login_answer [OF assms(1,2,3)]
    by (intro main_login_exit) simp
qed

text \<open>
  An instance: the remote client answers \<^verbatim>\<open>Fails.\<close> with status 200, as it does for
  a wrong password.
\<close>

theorem login_requires_ok_body_witness:
  "\<exists>w'. main lib0 (env0 200 ''Fails.'') (args0 (Some ''admin'')) world0 = Some (Exit 1, w') \<and>
     printed w' = [Stderr ''Error: Login failed (status 200): Fails.''] \<and>
     map req_url (calls w') = [''http://qb/api/v2/auth/login'']"
  using login_requires_ok_body [where L = lib0 and E = "env0 200 ''Fails.''"
      and a = "args0 (Some ''admin'')" and w = world0
      and resp = "\<lparr>status_code = 200, resp_text = ''Fails.'', resp_json = Inl JSONDecodeError\<rparr>"]
  by (simp add: args0_def env0_def world0_def login_request_def)

end
